theory Spec2Isabelle
  imports Main
begin

section \<open>Python strings\<close>

text \<open>
  Python's \<open>str\<close> is modelled by \<open>string\<close>: a text is its list of code points, and the
  model covers the code points below 256 (one \<open>char\<close> each). The functions below are the
  \<open>str\<close> methods the sources call.
\<close>

fun startswith :: "string \<Rightarrow> string \<Rightarrow> bool" where
  "startswith s [] = True"
| "startswith [] (p # ps) = False"
| "startswith (c # cs) (p # ps) = (c = p \<and> startswith cs ps)"

definition endswith :: "string \<Rightarrow> string \<Rightarrow> bool" where
  "endswith s p = startswith (rev s) (rev p)"

text \<open>\<open>sub in s\<close>: the substring test.\<close>

fun py_in :: "string \<Rightarrow> string \<Rightarrow> bool" where
  "py_in sub [] = (sub = [])"
| "py_in sub (c # cs) = (startswith (c # cs) sub \<or> py_in sub cs)"

text \<open>
  \<open>str.lower\<close> on code points below 256: the ASCII capitals and the Latin-1 capitals
  (U+00C0 to U+00DE without the multiplication sign U+00D7) move up by 32. In all of
  them bit 5 is clear, so adding 32 is setting that bit.
\<close>

definition is_upper :: "char \<Rightarrow> bool" where
  "is_upper c =
     (let n = (of_char c :: nat)
      in (65 \<le> n \<and> n \<le> 90) \<or> (192 \<le> n \<and> n \<le> 222 \<and> n \<noteq> 215))"

definition lower_char :: "char \<Rightarrow> char" where
  "lower_char c =
     (if is_upper c
      then (case c of Char b0 b1 b2 b3 b4 b5 b6 b7 \<Rightarrow> Char b0 b1 b2 b3 b4 True b6 b7)
      else c)"

definition lower :: "string \<Rightarrow> string" where
  "lower s = map lower_char s"

text \<open>
  \<open>s.replace(old, new)\<close>: the occurrences of \<open>old\<close> are replaced from the left, without
  overlap. After a match at \<open>c # cs\<close> the scan goes on behind it, that is
  \<open>length old - 1\<close> characters into \<open>cs\<close>.
\<close>

fun replace :: "string \<Rightarrow> string \<Rightarrow> string \<Rightarrow> string" where
  "replace old new [] = (if old = [] then new else [])"
| "replace old new (c # cs) =
     (if old = [] then new @ c # replace old new cs
      else if startswith (c # cs) old then new @ replace old new (drop (length old - 1) cs)
      else c # replace old new cs)"

text \<open>\<open>s.split(sep)\<close> for a one-character separator, and \<open>s.split(sep, maxsplit)\<close>.\<close>

fun split_char :: "char \<Rightarrow> string \<Rightarrow> string list" where
  "split_char sep [] = [[]]"
| "split_char sep (c # cs) =
     (if c = sep then [] # split_char sep cs
      else (case split_char sep cs of [] \<Rightarrow> [[c]] | l # ls \<Rightarrow> (c # l) # ls))"

fun split_max :: "string \<Rightarrow> nat \<Rightarrow> string \<Rightarrow> string list" where
  "split_max sep 0 s = [s]"
| "split_max sep (Suc n) [] = [[]]"
| "split_max sep (Suc n) (c # cs) =
     (if startswith (c # cs) sep then [] # split_max sep n (drop (length sep - 1) cs)
      else (case split_max sep (Suc n) cs of [] \<Rightarrow> [[c]] | l # ls \<Rightarrow> (c # l) # ls))"

text \<open>\<open>sep.join(xs)\<close>.\<close>

fun join :: "string \<Rightarrow> string list \<Rightarrow> string" where
  "join sep [] = []"
| "join sep [x] = x"
| "join sep (x # y # ys) = x @ sep @ join sep (y # ys)"

text \<open>
  The character classes of \<open>str.isspace\<close>, \<open>str.strip\<close> and of \<open>re\<close> on \<open>str\<close> patterns
  (\<open>\s\<close>, \<open>\d\<close>, \<open>\w\<close>), for code points below 256.
\<close>

definition in_range :: "nat \<Rightarrow> nat \<Rightarrow> char \<Rightarrow> bool" where
  "in_range lo hi c = (lo \<le> of_char c \<and> (of_char c :: nat) \<le> hi)"

definition is_space :: "char \<Rightarrow> bool" where
  "is_space c =
     (in_range 9 13 c \<or> in_range 28 32 c \<or> of_char c = (133::nat) \<or> of_char c = (160::nat))"

definition is_digit :: "char \<Rightarrow> bool" where
  "is_digit c = in_range 48 57 c"

definition is_word :: "char \<Rightarrow> bool" where
  "is_word c =
     (in_range 48 57 c \<or> in_range 65 90 c \<or> c = CHR ''_'' \<or> in_range 97 122 c
      \<or> of_char c = (170::nat) \<or> in_range 178 179 c \<or> of_char c = (181::nat)
      \<or> in_range 185 186 c \<or> in_range 188 190 c \<or> in_range 192 214 c
      \<or> in_range 216 246 c \<or> in_range 248 255 c)"

definition strip :: "string \<Rightarrow> string" where
  "strip s = rev (dropWhile is_space (rev (dropWhile is_space s)))"

text \<open>\<open>str(n)\<close> for a natural number, as in \<open>f"{response.status}"\<close>.\<close>

fun str_nat :: "nat \<Rightarrow> string" where
  "str_nat n =
     (if n < 10 then [''0123456789'' ! n]
      else str_nat (n div 10) @ [''0123456789'' ! (n mod 10)])"

declare str_nat.simps [simp del]

section \<open>Exceptions and the outside world\<close>

text \<open>
  An exception is a value: its class, as far as the handlers of the sources tell classes
  apart, and its message. aiohttp's \<open>ServerTimeoutError\<close> is both an
  \<open>asyncio.TimeoutError\<close> and an \<open>aiohttp.ClientError\<close>. Every class here derives from
  \<open>Exception\<close>.
\<close>

datatype exn_class =
  AsyncioTimeoutError | AiohttpClientError | ServerTimeoutError
  | TypeError | AttributeError | OtherException

datatype exn = Exn (exn_cls: exn_class) (exn_msg: string)

definition is_timeout :: "exn \<Rightarrow> bool" where
  "is_timeout e = (exn_cls e = AsyncioTimeoutError \<or> exn_cls e = ServerTimeoutError)"

definition is_client_error :: "exn \<Rightarrow> bool" where
  "is_client_error e = (exn_cls e = AiohttpClientError \<or> exn_cls e = ServerTimeoutError)"

text \<open>
  The \<open>url\<close> entry of one result object of the search service: absent, a string, or a
  value that is no string.
\<close>

datatype url_field = NoUrl | Url string | NotAString

text \<open>
  The services the pipeline talks to are parameters of the model. Each one returns its
  value, or the exception it raises.
  \<^item> \<open>search_service\<close>: the GET of \<open>get_news_urls\<close> on the request URL; the reply is the
    status and, read from the JSON body, the list \<open>data.get("results", [])\<close>;
  \<^item> \<open>http_get\<close>: the GET of \<open>fetch_article\<close>; the reply is the status and what
    \<open>response.text()\<close> gives;
  \<^item> \<open>markdownify\<close>: BeautifulSoup's tag selection followed by \<open>markdownify\<close>;
  \<^item> \<open>urlparse\<close>: \<open>urllib.parse.urlparse\<close>, giving scheme, netloc and path;
  \<^item> \<open>split_text\<close>: \<open>MarkdownTextSplitter().split_text\<close>;
  \<^item> \<open>parser_parse\<close>: \<open>get_parser_instance().parse\<close>;
  \<^item> \<open>get_vector_store\<close>, \<open>add_texts\<close>, \<open>similarity_search\<close>: the FAISS store, its
    \<open>add_texts\<close> and its \<open>similarity_search\<close> with \<open>k = int(getenv('NUMBER_OF_POINTS'))\<close>,
    the latter as a function of the texts in the store and the query, giving the page
    contents of the documents found;
  \<^item> \<open>extraction_chain\<close>, \<open>finalized_chain\<close>: the two model calls, as functions of the
    question and the \<open>search_results\<close> text.
\<close>

record env =
  SEARCH_URL :: string
  search_service :: "string \<Rightarrow> exn + (nat \<times> url_field list)"
  http_get :: "string \<Rightarrow> exn + (nat \<times> (exn + string))"
  markdownify :: "string \<Rightarrow> exn + string"
  urlparse :: "string \<Rightarrow> exn + (string \<times> string \<times> string)"
  split_text :: "string \<Rightarrow> exn + string list"
  parser_parse :: "string \<Rightarrow> exn + string"
  get_vector_store :: "exn option"
  add_texts :: "string list \<Rightarrow> exn option"
  similarity_search :: "string list \<Rightarrow> string \<Rightarrow> exn + string list"
  extraction_chain :: "string \<Rightarrow> string \<Rightarrow> exn + string"
  finalized_chain :: "string \<Rightarrow> string \<Rightarrow> exn + string"

section \<open>Regular expressions: \<open>re.sub\<close> and \<open>re.search\<close>\<close>

text \<open>
  The patterns of the cleaner are values of \<open>rx\<close>, and \<open>re\<close>'s backtracking matcher is the
  function \<open>mt\<close>: it runs a stack of frames against the text and returns the first match
  in \<open>re\<close>'s order of preference (the left alternative first, a greedy star the longest
  first, a lazy star the shortest first). \<open>Shorter n\<close> lets a star go round again only
  when the last round consumed a character; \<open>Close i s0\<close> closes group \<open>i\<close>, opened at
  the text \<open>s0\<close>. The matcher knows the character before the position (\<open>None\<close> at the
  start of the text) for \<open>\b\<close>. With \<open>ic\<close> set the pattern is compiled with
  \<open>re.IGNORECASE\<close>; ranges are compared as written (no pattern with that flag has one).
\<close>

datatype cset = One char | Range char char | Word | Space | Digit | NotSpace

datatype atom = Chr char | Dot | Cls "cset list" | NCls "cset list"

datatype rx =
    Eps
  | Atom atom
  | Seq rx rx
  | Alt rx rx
  | Star rx
  | Lazy rx
  | Grp nat rx
  | Eos
  | Bnd
  | NotAhead rx

datatype frame = R rx | Shorter nat | Close nat string

fun in_cset :: "bool \<Rightarrow> char \<Rightarrow> cset \<Rightarrow> bool" where
  "in_cset ic x (One c) = (if ic then lower_char x = lower_char c else x = c)"
| "in_cset ic x (Range a b) = in_range (of_char a) (of_char b) x"
| "in_cset ic x Word = is_word x"
| "in_cset ic x Space = is_space x"
| "in_cset ic x Digit = is_digit x"
| "in_cset ic x NotSpace = (\<not> is_space x)"

fun accepts :: "bool \<Rightarrow> atom \<Rightarrow> char \<Rightarrow> bool" where
  "accepts ic (Chr c) x = (if ic then lower_char x = lower_char c else x = c)"
| "accepts ic Dot x = (x \<noteq> CHR 0x0A)"
| "accepts ic (Cls cs) x = list_ex (in_cset ic x) cs"
| "accepts ic (NCls cs) x = (\<not> list_ex (in_cset ic x) cs)"

text \<open>
  The measure under which \<open>mt\<close> terminates: the length of the text, then the weight of
  the stack. The frames behind a \<open>Shorter b\<close> count only while the text is shorter than
  \<open>b\<close>, since they are not reached otherwise.
\<close>

fun rx_weight :: "rx \<Rightarrow> nat" where
  "rx_weight Eps = 1"
| "rx_weight (Atom a) = 1"
| "rx_weight (Seq a b) = rx_weight a + rx_weight b + 1"
| "rx_weight (Alt a b) = rx_weight a + rx_weight b + 1"
| "rx_weight (Star r) = rx_weight r + 2"
| "rx_weight (Lazy r) = rx_weight r + 2"
| "rx_weight (Grp n r) = rx_weight r + 2"
| "rx_weight Eos = 1"
| "rx_weight Bnd = 1"
| "rx_weight (NotAhead r) = rx_weight r + 1"

fun stack_weight :: "nat \<Rightarrow> frame list \<Rightarrow> nat" where
  "stack_weight n [] = 0"
| "stack_weight n (R r # K) = rx_weight r + stack_weight n K"
| "stack_weight n (Shorter b # K) = 1 + (if n < b then stack_weight n K else 0)"
| "stack_weight n (Close i s # K) = 1 + stack_weight n K"

definition word_before :: "char option \<Rightarrow> bool" where
  "word_before p = (case p of None \<Rightarrow> False | Some c \<Rightarrow> is_word c)"

definition word_next :: "string \<Rightarrow> bool" where
  "word_next s = (case s of [] \<Rightarrow> False | c # cs \<Rightarrow> is_word c)"

type_synonym groups = "nat \<rightharpoonup> string"

function mt :: "bool \<Rightarrow> frame list \<Rightarrow> char option \<Rightarrow> string \<Rightarrow> groups
    \<Rightarrow> (char option \<times> string \<times> groups) option" where
  "mt ic [] p s g = Some (p, s, g)"
| "mt ic (R Eps # K) p s g = mt ic K p s g"
| "mt ic (R (Atom a) # K) p [] g = None"
| "mt ic (R (Atom a) # K) p (x # xs) g = (if accepts ic a x then mt ic K (Some x) xs g else None)"
| "mt ic (R (Seq a b) # K) p s g = mt ic (R a # R b # K) p s g"
| "mt ic (R (Alt a b) # K) p s g =
     (case mt ic (R a # K) p s g of Some m \<Rightarrow> Some m | None \<Rightarrow> mt ic (R b # K) p s g)"
| "mt ic (R (Star r) # K) p s g =
     (case mt ic (R r # Shorter (length s) # R (Star r) # K) p s g of
        Some m \<Rightarrow> Some m
      | None \<Rightarrow> mt ic K p s g)"
| "mt ic (R (Lazy r) # K) p s g =
     (case mt ic K p s g of
        Some m \<Rightarrow> Some m
      | None \<Rightarrow> mt ic (R r # Shorter (length s) # R (Lazy r) # K) p s g)"
| "mt ic (Shorter n # K) p s g = (if length s < n then mt ic K p s g else None)"
| "mt ic (R (Grp i r) # K) p s g = mt ic (R r # Close i s # K) p s g"
| "mt ic (Close i s0 # K) p s g = mt ic K p s (g(i \<mapsto> take (length s0 - length s) s0))"
| "mt ic (R Eos # K) p s g = (if s = [] \<or> s = [CHR 0x0A] then mt ic K p s g else None)"
| "mt ic (R Bnd # K) p s g = (if word_before p \<noteq> word_next s then mt ic K p s g else None)"
| "mt ic (R (NotAhead r) # K) p s g =
     (case mt ic [R r] p s g of Some m \<Rightarrow> None | None \<Rightarrow> mt ic K p s g)"
  by pat_completeness auto
termination
  by (relation "measures [\<lambda>(ic, K, p, s, g). length s,
                          \<lambda>(ic, K, p, s, g). stack_weight (length s) K]") auto

text \<open>
  \<open>re.sub(pattern, repl, text)\<close>, from the position behind the character \<open>p\<close>: the
  leftmost match is replaced by \<open>f\<close> of its groups and the scan goes on behind it; where
  there is no match the character is copied. After an empty match the character at the
  position is copied as well (no pattern of the cleaner matches the empty string).
\<close>

function re_sub :: "bool \<Rightarrow> rx \<Rightarrow> (groups \<Rightarrow> string) \<Rightarrow> char option \<Rightarrow> string \<Rightarrow> string" where
  "re_sub ic r f p [] = (case mt ic [R r] p [] Map.empty of Some (p', s', g) \<Rightarrow> f g | None \<Rightarrow> [])"
| "re_sub ic r f p (c # cs) =
     (case mt ic [R r] p (c # cs) Map.empty of
        Some (p', s', g) \<Rightarrow>
          if length s' < Suc (length cs)
          then f g @ re_sub ic r f p' s'
          else f g @ c # re_sub ic r f (Some c) cs
      | None \<Rightarrow> c # re_sub ic r f (Some c) cs)"
  by pat_completeness auto
termination
  by (relation "measure (\<lambda>(ic, r, f, p, s). length s)") auto

text \<open>\<open>re.sub\<close> with a replacement function that may raise.\<close>

function re_sub_fn :: "bool \<Rightarrow> rx \<Rightarrow> (groups \<Rightarrow> exn + string) \<Rightarrow> char option \<Rightarrow> string
    \<Rightarrow> exn + string" where
  "re_sub_fn ic r f p [] =
     (case mt ic [R r] p [] Map.empty of Some (p', s', g) \<Rightarrow> f g | None \<Rightarrow> Inr [])"
| "re_sub_fn ic r f p (c # cs) =
     (case mt ic [R r] p (c # cs) Map.empty of
        Some (p', s', g) \<Rightarrow>
          (case f g of
             Inl e \<Rightarrow> Inl e
           | Inr new \<Rightarrow>
               if length s' < Suc (length cs)
               then map_sum id ((@) new) (re_sub_fn ic r f p' s')
               else map_sum id (\<lambda>t. new @ c # t) (re_sub_fn ic r f (Some c) cs))
      | None \<Rightarrow> map_sum id ((#) c) (re_sub_fn ic r f (Some c) cs))"
  by pat_completeness auto
termination
  by (relation "measure (\<lambda>(ic, r, f, p, s). length s)") auto

text \<open>\<open>re.search\<close>: the first match, as its text (group 0) and its groups.\<close>

fun re_search :: "bool \<Rightarrow> rx \<Rightarrow> char option \<Rightarrow> string \<Rightarrow> (string \<times> groups) option" where
  "re_search ic r p [] =
     (case mt ic [R r] p [] Map.empty of Some (p', s', g) \<Rightarrow> Some ([], g) | None \<Rightarrow> None)"
| "re_search ic r p (c # cs) =
     (case mt ic [R r] p (c # cs) Map.empty of
        Some (p', s', g) \<Rightarrow> Some (take (Suc (length cs) - length s') (c # cs), g)
      | None \<Rightarrow> re_search ic r (Some c) cs)"

text \<open>Group \<open>i\<close> in a replacement template: the empty string when the group took no part.\<close>

definition grp :: "groups \<Rightarrow> nat \<Rightarrow> string" where
  "grp g i = (case g i of None \<Rightarrow> [] | Some v \<Rightarrow> v)"

definition sub :: "rx \<Rightarrow> (groups \<Rightarrow> string) \<Rightarrow> string \<Rightarrow> string" where
  "sub r f text = re_sub False r f None text"

definition sub_i :: "rx \<Rightarrow> string \<Rightarrow> string" where
  "sub_i r text = re_sub True r (\<lambda>g. []) None text"

subsection \<open>Pattern notation\<close>

fun lit :: "string \<Rightarrow> rx" where
  "lit [] = Eps"
| "lit [c] = Atom (Chr c)"
| "lit (c # cs) = Seq (Atom (Chr c)) (lit cs)"

fun seqs :: "rx list \<Rightarrow> rx" where
  "seqs [] = Eps"
| "seqs [r] = r"
| "seqs (r # rs) = Seq r (seqs rs)"

fun alts :: "rx list \<Rightarrow> rx" where
  "alts [] = Atom (Cls [])"
| "alts [r] = r"
| "alts (r # rs) = Alt r (alts rs)"

definition plus1 :: "rx \<Rightarrow> rx" where "plus1 r = Seq r (Star r)"
definition opt :: "rx \<Rightarrow> rx" where "opt r = Alt r Eps"


definition ws :: rx where "ws = Atom (Cls [Space])"
definition wd :: rx where "wd = Atom (Cls [Word])"
definition dg :: rx where "dg = Atom (Cls [Digit])"
definition sp :: rx where "sp = plus1 ws"
definition so :: rx where "so = Star ws"
definition any_lazy :: rx where "any_lazy = Lazy (Atom Dot)"
definition bold :: rx where "bold = lit ''**''"
definition http :: rx where "http = seqs [lit ''http'', opt (lit ''s''), lit ''://'']"
definition oneof :: "string \<Rightarrow> rx" where "oneof cs = Atom (Cls (map One cs))"
definition noneof :: "string \<Rightarrow> rx" where "noneof cs = Atom (NCls (map One cs))"
definition words :: "string list \<Rightarrow> rx" where "words xs = alts (map lit xs)"

text \<open>A pattern character beyond U+00FF: it matches no character of the model.\<close>
definition beyond_latin1 :: rx where "beyond_latin1 = Atom (Cls [])"

section \<open>The cleaner: \<open>MarkdownCleaner\<close>\<close>

text \<open>
  Each method of \<open>MarkdownCleaner\<close> is a function of the same name without the leading
  underscore, each pattern a value of \<open>rx\<close>. \<open>clean\<close> is the method with
  \<open>verbose = False\<close>, the way \<open>oprah.py\<close> builds its cleaner.
\<close>

definition normalize_line_breaks :: "string \<Rightarrow> string" where
  "normalize_line_breaks text =
     replace [CHR 0x0D] ''\<newline>'' (replace [CHR 0x0D, CHR 0x0A] ''\<newline>'' text)"

text \<open>
  The date pattern (its two bullet characters written by their code points):
  \<^verbatim>\<open>(\d{1,2})\s+(Jan(?:uary)?|Feb(?:ruary)?|...|Dec(?:ember)?),?\s+(\d{4})\s*(?:U+2022|U+00B7)?\<close>
  \<^verbatim>\<open>\s*(\d{1,2}):(\d{2})\s*([ap]m)?\s*([A-Z]{2,4})?\<close>
\<close>

definition month :: rx where
  "month = alts
     [Seq (lit ''Jan'') (opt (lit ''uary'')), Seq (lit ''Feb'') (opt (lit ''ruary'')),
      Seq (lit ''Mar'') (opt (lit ''ch'')), Seq (lit ''Apr'') (opt (lit ''il'')),
      lit ''May'', Seq (lit ''Jun'') (opt (lit ''e'')), Seq (lit ''Jul'') (opt (lit ''y'')),
      Seq (lit ''Aug'') (opt (lit ''ust'')), Seq (lit ''Sep'') (opt (lit ''tember'')),
      Seq (lit ''Oct'') (opt (lit ''ober'')), Seq (lit ''Nov'') (opt (lit ''ember'')),
      Seq (lit ''Dec'') (opt (lit ''ember''))]"

definition capital :: rx where
  "capital = Atom (Cls [Range CHR ''A'' CHR ''Z''])"

definition date_pattern :: rx where
  "date_pattern = seqs
     [Grp 1 (Seq dg (opt dg)), sp, Grp 2 month, opt (lit '',''), sp,
      Grp 3 (seqs [dg, dg, dg, dg]), so,
      opt (Alt beyond_latin1 (Atom (Chr (CHR 0xB7)))), so,
      Grp 4 (Seq dg (opt dg)), lit '':'', Grp 5 (Seq dg dg), so,
      opt (Grp 6 (Seq (oneof ''ap'') (lit ''m''))), so,
      opt (Grp 7 (seqs [capital, capital, opt (Seq capital (opt capital))]))]"

definition clean_date_of :: "groups \<Rightarrow> string" where
  "clean_date_of g =
     (let day = grp g 1; month = grp g 2; year = grp g 3; hour = grp g 4; minute = grp g 5;
          clean_date = ''Published on '' @ day @ '' '' @ month @ '' '' @ year;
          clean_date =
            (if hour \<noteq> [] \<and> minute \<noteq> []
             then clean_date @ '' at '' @ hour @ '':'' @ minute
                    @ (case g 6 of None \<Rightarrow> [] | Some ampm \<Rightarrow> if ampm \<noteq> [] then '' '' @ ampm else [])
             else clean_date)
      in case g 7 of
           None \<Rightarrow> clean_date
         | Some timezone \<Rightarrow> if timezone \<noteq> [] then clean_date @ '' '' @ timezone else clean_date)"

definition extract_article_date :: "string \<Rightarrow> string" where
  "extract_article_date text =
     (case re_search False date_pattern None text of
        None \<Rightarrow> text
      | Some (original_date_str, g) \<Rightarrow>
          (let clean_date = clean_date_of g;
               text = replace original_date_str clean_date text;
               text = replace clean_date [] text;
               text_parts = split_max ''\<newline>\<newline>'' (Suc (Suc 0)) text
           in if 2 \<le> length text_parts
              then (if py_in ''!['' (hd text_parts)
                    then hd text_parts @ ''\<newline>\<newline>'' @ clean_date @ ''\<newline>\<newline>''
                           @ join ''\<newline>\<newline>'' (tl text_parts)
                    else hd text_parts @ ''\<newline>\<newline>'' @ clean_date @ ''\<newline>\<newline>''
                           @ join ''\<newline>\<newline>'' (tl text_parts))
              else clean_date @ ''\<newline>\<newline>'' @ text))"

text \<open>
  The replacement function of \<open>_clean_image_references\<close> calls \<open>urlparse\<close>, which is the
  parameter \<open>up\<close> here; when it raises, so does \<open>re.sub\<close>.
\<close>

text \<open>
  The image pattern, and in the replacement function \<^verbatim>\<open>\s+image$\<close>, \<^verbatim>\<open>\bimage\b\s+\<close> and \<^verbatim>\<open>\.\s+\<close>:
  \<^verbatim>\<open>!\[(.*?)\]\((.*?)\)\<close>
\<close>

definition img_pattern :: rx where
  "img_pattern = seqs [lit ''!['', Grp 1 any_lazy, lit '']('', Grp 2 any_lazy, lit '')'']"

definition clean_image_ref :: "(string \<Rightarrow> exn + (string \<times> string \<times> string)) \<Rightarrow> groups \<Rightarrow> exn + string" where
  "clean_image_ref up g =
     (let alt_text = strip (grp g 1);
          url = strip (grp g 2);
          alt_text = sub (seqs [sp, lit ''image'', Eos]) (\<lambda>g. []) alt_text;
          alt_text = sub (seqs [Bnd, lit ''image'', Bnd, sp]) (\<lambda>g. []) alt_text
      in case up url of
           Inl e \<Rightarrow> Inl e
         | Inr (scheme, netloc, path) \<Rightarrow>
             (let clean_url = scheme @ ''://'' @ netloc @ path;
                  clean_url = replace '' '' ''%20'' clean_url;
                  clean_url = sub (Seq (lit ''.'') sp) (\<lambda>g. ''.'') clean_url
              in Inr (''!['' @ alt_text @ '']('' @ clean_url @ '')'')))"

definition clean_image_references ::
    "(string \<Rightarrow> exn + (string \<times> string \<times> string)) \<Rightarrow> string \<Rightarrow> exn + string" where
  "clean_image_references up text =
     re_sub_fn False img_pattern (clean_image_ref up) None text"

text \<open>
  The eight substitutions of \<open>_fix_text_formatting\<close>:
  \<^verbatim>\<open>(\w+)\s*\*\*\s*,\s*\*\*\s*(\w+)\<close>
  \<^verbatim>\<open>(\d+)\s*\*\*\s*:\s*\*\*\s*(\d+)\<close>
  \<^verbatim>\<open>\s+([.,;:!?])\<close>
  \<^verbatim>\<open>in\s+\*\*\s*(\w+)\s*\*\*\s*,\s*\*\*\s*(\w+)\s*\*\*\<close>
  \<^verbatim>\<open>(\w+)\s+Super\s+Giants\s+\(\s*LSG\s*\)\<close>
  \<^verbatim>\<open>Royal\s+Challengers\s+Bengaluru\s+\(\s*RCB\s*\)\<close>
  \<^verbatim>\<open>match\s+no\.\s+(\d+)\<close>
  \<^verbatim>\<open>at\s+the\s+\*\*\s*(\w+(?:\s+\w+)*)\s+Stadium\s*\*\*\<close>
\<close>

definition fix_text_formatting :: "string \<Rightarrow> string" where
  "fix_text_formatting text =
     (let text = sub (seqs [Grp 1 (plus1 wd), so, bold, so, lit '','', so, bold, so, Grp 2 (plus1 wd)])
                   (\<lambda>g. grp g 1 @ '', '' @ grp g 2) text;
          text = sub (seqs [Grp 1 (plus1 dg), so, bold, so, lit '':'', so, bold, so, Grp 2 (plus1 dg)])
                   (\<lambda>g. grp g 1 @ '':'' @ grp g 2) text;
          text = sub (seqs [sp, Grp 1 (oneof ''.,;:!?'')]) (\<lambda>g. grp g 1) text;
          text = sub (seqs [lit ''in'', sp, bold, so, Grp 1 (plus1 wd), so, bold, so, lit '','', so,
                            bold, so, Grp 2 (plus1 wd), so, bold])
                   (\<lambda>g. ''in **'' @ grp g 1 @ '', '' @ grp g 2 @ ''**'') text;
          text = sub (seqs [Grp 1 (plus1 wd), sp, lit ''Super'', sp, lit ''Giants'', sp,
                            lit ''('', so, lit ''LSG'', so, lit '')''])
                   (\<lambda>g. ''Lucknow Super Giants (LSG)'') text;
          text = sub (seqs [lit ''Royal'', sp, lit ''Challengers'', sp, lit ''Bengaluru'', sp,
                            lit ''('', so, lit ''RCB'', so, lit '')''])
                   (\<lambda>g. ''Royal Challengers Bengaluru (RCB)'') text;
          text = sub (seqs [lit ''match'', sp, lit ''no.'', sp, Grp 1 (plus1 dg)])
                   (\<lambda>g. ''match no. '' @ grp g 1) text;
          text = sub (seqs [lit ''at'', sp, lit ''the'', sp, bold, so,
                            Grp 1 (Seq (plus1 wd) (Star (Seq sp (plus1 wd)))), sp,
                            lit ''Stadium'', so, bold])
                   (\<lambda>g. ''at the **'' @ grp g 1 @ '' Stadium**'') text
      in text)"

text \<open>
  The betting patterns, compiled with \<open>re.IGNORECASE\<close> (the second one on two lines):
  \<^verbatim>\<open>\*\*\s*BET\s+NOW\s*:\s*\*\*\s*\[.*?\]\(https?:\/\/(?:bit\.ly|tinyurl\.com|goo\.gl)\/[^\s)]+\)\<close>
  \<^verbatim>\<open>\[(?:Bet|Claim|Get|Grab|Win).*?(?:bonus|offer|promotion|bet|sign[\s-]?up).*?\]\<close>
  \<^verbatim>\<open>    \(https?:\/\/(?:bit\.ly|tinyurl\.com|goo\.gl)\/[^\s)]+\)\<close>
  \<^verbatim>\<open>\*\*.*?WIN\s+WELCOME\s+BONUS.*?\*\*\<close>
  \<^verbatim>\<open>\[.*?(?:bet|claim|win|bonus|offer).*?\]\(https?:\/\/.*?\)\<close>
\<close>

definition shortener :: rx where
  "shortener = seqs [http, words [''bit.ly'', ''tinyurl.com'', ''goo.gl''], lit ''/'',
                     plus1 (Atom (NCls [Space, One CHR '')'']))]"

definition betting_patterns :: "rx list" where
  "betting_patterns =
     [seqs [bold, so, lit ''BET'', sp, lit ''NOW'', so, lit '':'', so, bold, so,
            lit ''['', any_lazy, lit '']('', shortener, lit '')''],
      seqs [lit ''['', words [''Bet'', ''Claim'', ''Get'', ''Grab'', ''Win''], any_lazy,
            alts [lit ''bonus'', lit ''offer'', lit ''promotion'', lit ''bet'',
                  seqs [lit ''sign'', opt (Atom (Cls [Space, One CHR ''-''])), lit ''up'']],
            any_lazy, lit '']('', shortener, lit '')''],
      seqs [bold, any_lazy, lit ''WIN'', sp, lit ''WELCOME'', sp, lit ''BONUS'', any_lazy, bold],
      seqs [lit ''['', any_lazy, words [''bet'', ''claim'', ''win'', ''bonus'', ''offer''], any_lazy,
            lit '']('', http, any_lazy, lit '')'']]"

definition betting_keywords :: "string list" where
  "betting_keywords =
     [''bet now'', ''welcome bonus'', ''sign up'', ''click'', ''sign-up'', ''bonus code'',
      ''free bet'', ''promo code'', ''deposit'', ''betting'', ''wagering'', ''sportsbook'']"

text \<open>The loop that keeps the lines holding none of the keywords.\<close>

definition drop_lines :: "string list \<Rightarrow> string \<Rightarrow> string" where
  "drop_lines keywords text =
     join ''\<newline>''
       (filter (\<lambda>line. \<not> list_ex (\<lambda>keyword. py_in keyword (lower line)) keywords)
          (split_char CHR 0x0A text))"

definition remove_betting_promotions :: "string \<Rightarrow> string" where
  "remove_betting_promotions text = drop_lines betting_keywords (foldl (\<lambda>t pattern. sub_i pattern t) text betting_patterns)"

text \<open>
  The social-media patterns, compiled with \<open>re.IGNORECASE\<close> (the first one on two lines):
  \<^verbatim>\<open>\[Follow\s+(?:The\s+)?(?:\w+\s+)+on\s+(?:Twitter|Facebook|Instagram|WhatsApp|Telegram)\]\<close>
  \<^verbatim>\<open>    \(https?:\/\/.*?\)\<close>
  \<^verbatim>\<open>\[Subscribe\s+to\s+our\s+(?:YouTube|Facebook|Telegram)\s+channel\]\(https?:\/\/.*?\)\<close>
  \<^verbatim>\<open>Follow\s+(?:us|The\s+\w+)\s+on\s+(?:Twitter|Facebook|Instagram|WhatsApp|Telegram)\<close>
  \<^verbatim>\<open>https?:\/\/(?:sn-now\.com|bit\.ly)\/\w+(?:WhatsApp|Facebook|Twitter|Instagram)\w*\<close>
\<close>

definition networks :: rx where
  "networks = words [''Twitter'', ''Facebook'', ''Instagram'', ''WhatsApp'', ''Telegram'']"

definition social_patterns :: "rx list" where
  "social_patterns =
     [seqs [lit ''[Follow'', sp, opt (Seq (lit ''The'') sp), plus1 (Seq (plus1 wd) sp), lit ''on'', sp,
            networks, lit '']('', http, any_lazy, lit '')''],
      seqs [lit ''[Subscribe'', sp, lit ''to'', sp, lit ''our'', sp,
            words [''YouTube'', ''Facebook'', ''Telegram''], sp, lit ''channel]('', http, any_lazy,
            lit '')''],
      seqs [lit ''Follow'', sp, Alt (lit ''us'') (seqs [lit ''The'', sp, plus1 wd]), sp, lit ''on'', sp,
            networks],
      seqs [http, words [''sn-now.com'', ''bit.ly''], lit ''/'', plus1 wd,
            words [''WhatsApp'', ''Facebook'', ''Twitter'', ''Instagram''], Star wd]]"

definition social_keywords :: "string list" where
  "social_keywords =
     [''follow us'', ''join us'', ''subscribe'', ''like our'', ''share this'',
      ''connect with us'', ''stay updated'', ''don't miss'', ''for more updates'']"

definition remove_social_media_promotions :: "string \<Rightarrow> string" where
  "remove_social_media_promotions text = drop_lines social_keywords (foldl (\<lambda>t pattern. sub_i pattern t) text social_patterns)"

text \<open>
  The article patterns, compiled with \<open>re.IGNORECASE\<close>:
  \<^verbatim>\<open>\*\*\s*READ\s+MORE\s*:\s*\*\*\s*\[.*?\]\(https?:\/\/.*?\)\<close>
  \<^verbatim>\<open>\[ALSO\s+READ:.*?\]\(https?:\/\/.*?\)\<close>
  \<^verbatim>\<open>\*\*\s*RELATED:?\s*\*\*\s*\[.*?\]\(https?:\/\/.*?\)\<close>
  \<^verbatim>\<open>\*\*\s*CHECK\s+OUT:?\s*\*\*\s*\[.*?\]\(https?:\/\/.*?\)\<close>
\<close>

definition linked :: rx where
  "linked = seqs [lit ''['', any_lazy, lit '']('', http, any_lazy, lit '')'']"

definition article_patterns :: "rx list" where
  "article_patterns =
     [seqs [bold, so, lit ''READ'', sp, lit ''MORE'', so, lit '':'', so, bold, so, linked],
      seqs [lit ''[ALSO'', sp, lit ''READ:'', any_lazy, lit '']('', http, any_lazy, lit '')''],
      seqs [bold, so, lit ''RELATED'', opt (lit '':''), so, bold, so, linked],
      seqs [bold, so, lit ''CHECK'', sp, lit ''OUT'', opt (lit '':''), so, bold, so, linked]]"

definition remove_other_article_promotions :: "string \<Rightarrow> string" where
  "remove_other_article_promotions text = foldl (\<lambda>t pattern. sub_i pattern t) text article_patterns"

text \<open>
  The footer patterns, compiled with \<open>re.IGNORECASE\<close> (the copyright sign and the dash written by their code points):
  \<^verbatim>\<open>For\s+more\s+(?:updates|news|information)\s+on.*?visit\s+our\s+website\<close>
  \<^verbatim>\<open>Don\'t\s+forget\s+to\s+(?:follow|subscribe|check)\s+us\s+on\<close>
  \<^verbatim>\<open>Copyright\s+U+00A9\s+\d{4}.*?All\s+rights\s+reserved\<close>
  \<^verbatim>\<open>U+00A9 \d{4}(?:U+2013\d{4})?\s+(?:\w+\s+)+\.\s+All\s+rights\s+reserved\.\<close>
\<close>

definition copyright_sign :: rx where
  "copyright_sign = Atom (Chr (CHR 0xA9))"

definition footer_patterns :: "rx list" where
  "footer_patterns =
     [seqs [lit ''For'', sp, lit ''more'', sp, words [''updates'', ''news'', ''information''], sp,
            lit ''on'', any_lazy, lit ''visit'', sp, lit ''our'', sp, lit ''website''],
      seqs [lit ''Don't'', sp, lit ''forget'', sp, lit ''to'', sp,
            words [''follow'', ''subscribe'', ''check''], sp, lit ''us'', sp, lit ''on''],
      seqs [lit ''Copyright'', sp, copyright_sign, sp, dg, dg, dg, dg, any_lazy,
            lit ''All'', sp, lit ''rights'', sp, lit ''reserved''],
      seqs [copyright_sign, lit '' '', dg, dg, dg, dg, opt (seqs [beyond_latin1, dg, dg, dg, dg]), sp,
            plus1 (Seq (plus1 wd) sp), lit ''.'', sp, lit ''All'', sp, lit ''rights'', sp,
            lit ''reserved.'']]"

definition remove_footer_elements :: "string \<Rightarrow> string" where
  "remove_footer_elements text = foldl (\<lambda>t pattern. sub_i pattern t) text footer_patterns"

text \<open>
  The seven substitutions of \<open>_fix_bold_formatting\<close>:
  \<^verbatim>\<open>\*\*\s+\*\*\<close>
  \<^verbatim>\<open>\*\*\)\s+\*\*\<close>
  \<^verbatim>\<open>\*\*\s*,\s*\*\*\<close>
  \<^verbatim>\<open>\*\*\s+(\w+)\*\*\<close>
  \<^verbatim>\<open>(\w+)\s+\*\*\<close>
  \<^verbatim>\<open>\*\*\s*([,.;:!?])\<close>
  \<^verbatim>\<open>\*\*\*\*\<close>
\<close>

definition fix_bold_formatting :: "string \<Rightarrow> string" where
  "fix_bold_formatting text =
     (let text = sub (seqs [bold, sp, bold]) (\<lambda>g. '' '') text;
          text = sub (seqs [lit ''**)'', sp, bold]) (\<lambda>g. ''**) '') text;
          text = sub (seqs [bold, so, lit '','', so, bold]) (\<lambda>g. '', '') text;
          text = sub (seqs [bold, sp, Grp 1 (plus1 wd), bold]) (\<lambda>g. ''**'' @ grp g 1 @ ''**'') text;
          text = sub (seqs [Grp 1 (plus1 wd), sp, bold]) (\<lambda>g. grp g 1 @ ''**'') text;
          text = sub (seqs [bold, so, Grp 1 (oneof '',.;:!?'')]) (\<lambda>g. grp g 1) text;
          text = sub (lit ''****'') (\<lambda>g. ''**'') text
      in text)"

text \<open>
  The patterns of \<open>_fix_heading_structure\<close>, the last one compiled with \<open>re.IGNORECASE\<close>:
  \<^verbatim>\<open>(\w+(?:\s+\w+)*)\s+\((\w+)\)\s+(?:vs|versus|v\/s|will\s+(?:face|play|meet))\s+(\w+(?:\s+\w+)*)\s+\((\w+)\)\<close>
  \<^verbatim>\<open>at\s+the\s+\*\*\s*([\w\s]+Stadium[\w\s]*)\s*\*\*\s+in\s+\*\*\s*([\w\s,]+)\s*\*\*\<close>
  \<^verbatim>\<open>(match\s+no\.\s+(\d+)[\s\S]*?IPL[\s\S]*?\d{4})\<close>
\<close>

definition team :: rx where
  "team = Seq (plus1 wd) (Star (Seq sp (plus1 wd)))"

definition team_match_pattern :: rx where
  "team_match_pattern = seqs
     [Grp 1 team, sp, lit ''('', Grp 2 (plus1 wd), lit '')'', sp,
      alts [lit ''vs'', lit ''versus'', lit ''v/s'',
            seqs [lit ''will'', sp, words [''face'', ''play'', ''meet'']]],
      sp, Grp 3 team, sp, lit ''('', Grp 4 (plus1 wd), lit '')'']"

definition stadium_pattern :: rx where
  "stadium_pattern = seqs
     [lit ''at'', sp, lit ''the'', sp, bold, so,
      Grp 1 (seqs [plus1 (Atom (Cls [Word, Space])), lit ''Stadium'', Star (Atom (Cls [Word, Space]))]),
      so, bold, sp, lit ''in'', sp, bold, so,
      Grp 2 (plus1 (Atom (Cls [Word, Space, One CHR '','']))), so, bold]"

definition match_info_pattern :: rx where
  "match_info_pattern =
     Grp 1 (seqs [lit ''match'', sp, lit ''no.'', sp, Grp 2 (plus1 dg),
                  Lazy (Atom (Cls [Space, NotSpace])), lit ''IPL'',
                  Lazy (Atom (Cls [Space, NotSpace])), dg, dg, dg, dg])"

definition fix_heading_structure :: "string \<Rightarrow> string" where
  "fix_heading_structure text =
     (let text = sub team_match_pattern
                   (\<lambda>g. ''## '' @ grp g 1 @ '' ('' @ grp g 2 @ '') vs '' @ grp g 3
                          @ '' ('' @ grp g 4 @ '')'') text;
          text = sub stadium_pattern (\<lambda>g. ''### Venue: '' @ grp g 1 @ '' in '' @ grp g 2) text
      in if py_in ''match no.'' (lower text)
         then (case re_search True match_info_pattern None text of
                 None \<Rightarrow> text
               | Some (m, g) \<Rightarrow>
                   (let match_info = grp g 1
                    in replace match_info (''### Match Information\<newline>'' @ match_info) text))
         else text)"

text \<open>
  The logo patterns, compiled with \<open>re.IGNORECASE\<close>:
  \<^verbatim>\<open>!\[.*?(?:logo|icon|badge|emblem|symbol).*?\]\(.*?\)\<close>
  \<^verbatim>\<open>!\[.*?\]\(.*?(?:logo|icon|badge|emblem|symbol).*?\)\<close>
  \<^verbatim>\<open>!\[.*?\]\(.*?(?:width|height)="?(?:20|30|40|50|60|70|80|90|100)"?.*?\)\<close>
  \<^verbatim>\<open>!\[\]\(.*?\)\<close>
  \<^verbatim>\<open><img[^>]*?(?:logo|icon|badge|emblem|symbol)[^>]*?>\<close>
  \<^verbatim>\<open><img[^>]*?(?:width|height)="?(?:20|30|40|50|60|70|80|90|100)"?[^>]*?>\<close>
\<close>

definition logo_terms :: rx where
  "logo_terms = words [''logo'', ''icon'', ''badge'', ''emblem'', ''symbol'']"

definition small_size :: rx where
  "small_size = seqs
     [words [''width'', ''height''], lit ''='', opt (lit ''\"''),
      words [''20'', ''30'', ''40'', ''50'', ''60'', ''70'', ''80'', ''90'', ''100''],
      opt (lit ''\"'')]"

definition in_tag :: rx where
  "in_tag = Lazy (noneof ''>'')"

definition logo_patterns :: "rx list" where
  "logo_patterns =
     [seqs [lit ''!['', any_lazy, logo_terms, any_lazy, lit '']('', any_lazy, lit '')''],
      seqs [lit ''!['', any_lazy, lit '']('', any_lazy, logo_terms, any_lazy, lit '')''],
      seqs [lit ''!['', any_lazy, lit '']('', any_lazy, small_size, any_lazy, lit '')''],
      seqs [lit ''![]('', any_lazy, lit '')''],
      seqs [lit ''<img'', in_tag, logo_terms, in_tag, lit ''>''],
      seqs [lit ''<img'', in_tag, small_size, in_tag, lit ''>'']]"

definition remove_logos :: "string \<Rightarrow> string" where
  "remove_logos text = foldl (\<lambda>t pattern. sub_i pattern t) text logo_patterns"

text \<open>
  The link pattern:
  \<^verbatim>\<open>\[([^\]]+)\]\(([^)]+)\)\<close>
\<close>

definition link_pattern :: rx where
  "link_pattern = seqs [lit ''['', Grp 1 (plus1 (noneof '']'')), lit '']('', Grp 2 (plus1 (noneof '')'')),
                        lit '')'']"

definition remove_general_links :: "string \<Rightarrow> string" where
  "remove_general_links text = sub link_pattern (\<lambda>g. grp g 1) text"

text \<open>
  The four substitutions of \<open>_clean_whitespace\<close>, followed by \<open>strip\<close>:
  \<^verbatim>\<open>\n{3,}\<close>
  \<^verbatim>\<open> +\n\<close>
  \<^verbatim>\<open>(\n#{1,3} .+)\n(?!$|#|\n)\<close>
  \<^verbatim>\<open> {2,}\<close>
\<close>

definition heading_line :: rx where
  "heading_line = seqs
     [Grp 1 (seqs [lit ''\<newline>'', lit ''#'', opt (Seq (lit ''#'') (opt (lit ''#''))), lit '' '',
                   plus1 (Atom Dot)]),
      lit ''\<newline>'', NotAhead (alts [Eos, lit ''#'', lit ''\<newline>''])]"

definition clean_whitespace :: "string \<Rightarrow> string" where
  "clean_whitespace text =
     (let text = sub (seqs [lit ''\<newline>\<newline>\<newline>'', Star (lit ''\<newline>'')])
                   (\<lambda>g. ''\<newline>\<newline>'') text;
          text = sub (seqs [plus1 (lit '' ''), lit ''\<newline>'']) (\<lambda>g. ''\<newline>'') text;
          text = sub heading_line (\<lambda>g. grp g 1 @ ''\<newline>\<newline>'') text;
          text = sub (seqs [lit ''  '', Star (lit '' '')]) (\<lambda>g. '' '') text;
          text = strip text
      in text)"

text \<open>
  \<open>clean\<close>: the rules in the order of the source. Only the rewriting of the image
  references can raise, and what it raises leaves \<open>clean\<close>.
\<close>

definition clean :: "(string \<Rightarrow> exn + (string \<times> string \<times> string)) \<Rightarrow> string \<Rightarrow> exn + string" where
  "clean up text =
     (let cleaned_text = text;
          cleaned_text = normalize_line_breaks cleaned_text;
          cleaned_text = extract_article_date cleaned_text
      in case clean_image_references up cleaned_text of
           Inl e \<Rightarrow> Inl e
         | Inr cleaned_text \<Rightarrow>
             (let cleaned_text = remove_logos cleaned_text;
                  cleaned_text = remove_general_links cleaned_text;
                  cleaned_text = fix_text_formatting cleaned_text;
                  cleaned_text = remove_betting_promotions cleaned_text;
                  cleaned_text = remove_social_media_promotions cleaned_text;
                  cleaned_text = remove_other_article_promotions cleaned_text;
                  cleaned_text = remove_footer_elements cleaned_text;
                  cleaned_text = fix_bold_formatting cleaned_text;
                  cleaned_text = fix_heading_structure cleaned_text;
                  cleaned_text = clean_whitespace cleaned_text
              in Inr cleaned_text))"

section \<open>What a match takes in\<close>

text \<open>
  \<open>min_len r\<close>: a number of characters that every match of \<open>r\<close> takes in, read off the
  shape of \<open>r\<close>; \<open>min_stack\<close> is the same for what a stack still has to match.
\<close>

fun min_len :: "rx \<Rightarrow> nat" where
  "min_len (Atom a) = 1"
| "min_len (Seq a b) = min_len a + min_len b"
| "min_len (Alt a b) = min (min_len a) (min_len b)"
| "min_len (Grp i r) = min_len r"
| "min_len r = 0"

fun min_stack :: "frame list \<Rightarrow> nat" where
  "min_stack [] = 0"
| "min_stack (R r # K) = min_len r + min_stack K"
| "min_stack (f # K) = min_stack K"

text \<open>\<open>matches ic r text\<close>: \<open>re.search\<close> finds a match of \<open>r\<close> in \<open>text\<close>.\<close>

definition matches :: "bool \<Rightarrow> rx \<Rightarrow> string \<Rightarrow> bool" where
  "matches ic r text = (re_search ic r None text \<noteq> None)"


text \<open>
  \<open>grp_tail E r a\<close>: behind every group of \<open>r\<close> the match takes in at least \<open>E\<close> more
  characters, when at least \<open>a\<close> are taken in behind \<open>r\<close>.
\<close>

fun grp_tail :: "nat \<Rightarrow> rx \<Rightarrow> nat \<Rightarrow> bool" where
  "grp_tail E (Grp i r) a = (E \<le> a \<and> grp_tail E r a)"
| "grp_tail E (Seq x y) a = (grp_tail E x (min_len y + a) \<and> grp_tail E y a)"
| "grp_tail E (Alt x y) a = (grp_tail E x a \<and> grp_tail E y a)"
| "grp_tail E (Star r) a = grp_tail E r a"
| "grp_tail E (Lazy r) a = grp_tail E r a"
| "grp_tail E (NotAhead r) a = grp_tail E r 0"
| "grp_tail E r a = True"

fun stack_tail :: "nat \<Rightarrow> frame list \<Rightarrow> bool" where
  "stack_tail E [] = True"
| "stack_tail E (R r # K) = (grp_tail E r (min_stack K) \<and> stack_tail E K)"
| "stack_tail E (Close i s0 # K) = (E \<le> min_stack K \<and> stack_tail E K)"
| "stack_tail E (Shorter n # K) = stack_tail E K"

text \<open>
  A substitution is shrinking when the text it puts in is shorter than the match it
  replaces.
\<close>

definition shrinking :: "rx \<Rightarrow> (groups \<Rightarrow> string) \<Rightarrow> bool" where
  "shrinking r f \<longleftrightarrow>
     (\<forall>p s p' s' g. mt False [R r] p s Map.empty = Some (p', s', g) \<longrightarrow>
        length (f g) + length s' < length s)"

text \<open>
  The substitutions of \<open>_fix_bold_formatting\<close> and of \<open>_clean_whitespace\<close> as lists of
  patterns and replacements, in the order of the source.
\<close>

definition bold_fixes :: "(rx \<times> (groups \<Rightarrow> string)) list" where
  "bold_fixes =
     [(seqs [bold, sp, bold], \<lambda>g. '' ''),
      (seqs [lit ''**)'', sp, bold], \<lambda>g. ''**) ''),
      (seqs [bold, so, lit '','', so, bold], \<lambda>g. '', ''),
      (seqs [bold, sp, Grp 1 (plus1 wd), bold], \<lambda>g. ''**'' @ grp g 1 @ ''**''),
      (seqs [Grp 1 (plus1 wd), sp, bold], \<lambda>g. grp g 1 @ ''**''),
      (seqs [bold, so, Grp 1 (oneof '',.;:!?'')], \<lambda>g. grp g 1),
      (lit ''****'', \<lambda>g. ''**'')]"

definition whitespace_fixes :: "(rx \<times> (groups \<Rightarrow> string)) list" where
  "whitespace_fixes =
     [(seqs [lit ''\<newline>\<newline>\<newline>'', Star (lit ''\<newline>'')], \<lambda>g. ''\<newline>\<newline>''),
      (seqs [plus1 (lit '' ''), lit ''\<newline>''], \<lambda>g. ''\<newline>''),
      (heading_line, \<lambda>g. grp g 1 @ ''\<newline>\<newline>''),
      (seqs [lit ''  '', Star (lit '' '')], \<lambda>g. '' '')]"

section \<open>The order of the specification\<close>

text \<open>
  The order of the specification: the rules (a) to (m) one after the other, with logo
  removal (i) and link stripping (j) behind footer removal (h).
\<close>

definition clean_in_spec_order ::
    "(string \<Rightarrow> exn + (string \<times> string \<times> string)) \<Rightarrow> string \<Rightarrow> exn + string" where
  "clean_in_spec_order up text =
     (case clean_image_references up (extract_article_date (normalize_line_breaks text)) of
        Inl e \<Rightarrow> Inl e
      | Inr t \<Rightarrow>
          Inr (clean_whitespace (fix_heading_structure (fix_bold_formatting
                 (remove_general_links (remove_logos
                    (remove_footer_elements (remove_other_article_promotions
                       (remove_social_media_promotions (remove_betting_promotions
                          (fix_text_formatting t)))))))))))"

section \<open>URL discovery: \<open>get_news_urls\<close>\<close>

definition blocked_domains :: "string list" where
  "blocked_domains =
     [''britannica.com'', ''youtube.com'', ''youtu.be'',
      ''instagram.com'', ''facebook.com'', ''twitter.com'', ''x.com'']"

definition skip_set :: "string list" where
  "skip_set = [''https://uplegisassembly.gov.in/index_en.html'']"

text \<open>The condition of the list comprehension, on a URL that is a string.\<close>

definition url_ok :: "string \<Rightarrow> bool" where
  "url_ok u \<longleftrightarrow>
     startswith u ''https://''
     \<and> \<not> endswith (lower u) ''.pdf''
     \<and> list_all (\<lambda>domain. \<not> py_in domain u) blocked_domains
     \<and> u \<notin> set skip_set"

text \<open>
  The comprehension over the results. A result without \<open>url\<close> is skipped
  (\<open>"".startswith("https://")\<close> is false); a \<open>url\<close> that is no string has no \<open>startswith\<close>
  taking a string, and the comprehension raises.
\<close>

fun filter_urls :: "url_field list \<Rightarrow> exn + string list" where
  "filter_urls [] = Inr []"
| "filter_urls (NoUrl # rs) = filter_urls rs"
| "filter_urls (NotAString # rs) = Inl (Exn AttributeError ''startswith'')"
| "filter_urls (Url u # rs) =
     (case filter_urls rs of
        Inl e \<Rightarrow> Inl e
      | Inr us \<Rightarrow> Inr (if url_ok u then u # us else us))"

definition modify_query :: "string \<Rightarrow> string" where
  "modify_query query =
     (let modified_query = replace '' '' ''+'' query
      in if py_in ''latest'' (lower query) \<or> py_in ''current'' (lower query)
         then modified_query @ ''&time_range=day''
         else modified_query)"

text \<open>
  \<open>list(set(urls))\<close> keeps one copy of each URL, in an order Python does not fix; the model
  keeps them in the order of \<open>remdups\<close>, and no theorem below depends on the order.
\<close>

definition get_news_urls :: "env \<Rightarrow> string \<Rightarrow> exn + string list" where
  "get_news_urls E query =
     (case search_service E (SEARCH_URL E @ ''?q='' @ modify_query query @ ''&format=json'') of
        Inl e \<Rightarrow> Inl e
      | Inr (status, results) \<Rightarrow>
          if status \<noteq> 200 then Inr []
          else (case filter_urls results of
                  Inl e \<Rightarrow> Inl e
                | Inr urls \<Rightarrow> Inr (remdups (take 6 urls))))"

section \<open>Fetching: \<open>parse_html_content\<close>, \<open>fetch_article\<close>, \<open>webscraper\<close>\<close>

text \<open>
  \<open>parse_html_content\<close> catches every exception of its body and returns \<open>None\<close> then.
\<close>

definition parse_html_content :: "env \<Rightarrow> string \<Rightarrow> string option" where
  "parse_html_content E html =
     (case markdownify E html of
        Inl e \<Rightarrow> None
      | Inr markdown \<Rightarrow>
          (case clean (urlparse E) markdown of
             Inl e \<Rightarrow> None
           | Inr cleaned_markdown \<Rightarrow>
               (case split_text E cleaned_markdown of
                  Inl e \<Rightarrow> None
                | Inr chunks \<Rightarrow>
                    (let mtext = concat (map (\<lambda>text. text @ ''\<newline>'') chunks)
                     in case parser_parse E mtext of
                          Inl e \<Rightarrow> None
                        | Inr mrtext \<Rightarrow> Some mrtext))))"

text \<open>
  The body of the \<open>try\<close> of \<open>fetch_article\<close>: what it returns, or the exception that
  leaves it. \<open>not parsed_content\<close> holds for \<open>None\<close> and for the empty string.
\<close>

definition fetch_article_try :: "env \<Rightarrow> string \<Rightarrow> exn + string" where
  "fetch_article_try E url =
     (case http_get E url of
        Inl e \<Rightarrow> Inl e
      | Inr (status, body) \<Rightarrow>
          if status \<noteq> 200 then Inr (''[Fetch Failed: '' @ str_nat status @ ''] '' @ url)
          else (case body of
                  Inl e \<Rightarrow> Inl e
                | Inr html \<Rightarrow>
                    (case parse_html_content E html of
                       None \<Rightarrow> Inr (''[Parse Failed] '' @ url)
                     | Some parsed_content \<Rightarrow>
                         if parsed_content = [] then Inr (''[Parse Failed] '' @ url)
                         else Inr (parsed_content @ ''\<newline>Source: '' @ url @ ''\<newline>''))))"

text \<open>The three handlers, in the order of the source.\<close>

definition fetch_article :: "env \<Rightarrow> string \<Rightarrow> string" where
  "fetch_article E url =
     (case fetch_article_try E url of
        Inr text \<Rightarrow> text
      | Inl e \<Rightarrow>
          if is_timeout e then ''[Timeout] '' @ url
          else if is_client_error e then ''[ClientError] '' @ url
          else ''[UnhandledError] '' @ url)"

text \<open>
  \<open>webscraper\<close> returns \<open>None\<close> when there is no URL, and otherwise what
  \<open>asyncio.gather\<close> returns: the results of the tasks in the order of the tasks.
\<close>

definition webscraper :: "env \<Rightarrow> string \<Rightarrow> exn + string list option" where
  "webscraper E query =
     (case get_news_urls E query of
        Inl e \<Rightarrow> Inl e
      | Inr urls \<Rightarrow>
          if urls = [] then Inr None
          else Inr (Some (map (fetch_article E) urls)))"

section \<open>The pipeline: \<open>WebThinkerAgent.search\<close>\<close>

text \<open>
  The value under \<open>extracted_info\<close>: the summary, or the empty list of the handler.
\<close>

datatype info = Summary string | EmptyList

record result =
  search_results :: "string list"
  extracted_info :: info

definition extract_information :: "env \<Rightarrow> string \<Rightarrow> string \<Rightarrow> string" where
  "extract_information E question passage =
     (case extraction_chain E question passage of
        Inr answer \<Rightarrow> answer
      | Inl e \<Rightarrow> ''Error extracting information: '' @ exn_msg e)"

text \<open>The value \<open>gather_extracted_info\<close> returns; its scheduling is modelled further down.\<close>

definition gather_extracted_info :: "env \<Rightarrow> string \<Rightarrow> string list \<Rightarrow> string" where
  "gather_extracted_info E question final_results =
     join ''\<newline>\<newline>'' (map (extract_information E question) final_results)"

text \<open>The filter before indexing; a result of \<open>fetch_article\<close> is never \<open>None\<close>.\<close>

definition keep_results :: "string list \<Rightarrow> string list" where
  "keep_results results = filter (\<lambda>result. strip result \<noteq> []) results"

text \<open>
  From the fresh vector store to \<open>final_results\<close>, the passages handed to the extraction.
\<close>

definition retrieve :: "env \<Rightarrow> string \<Rightarrow> string list \<Rightarrow> exn + string list" where
  "retrieve E question texts =
     (case get_vector_store E of
        Some e \<Rightarrow> Inl e
      | None \<Rightarrow>
          (case (if texts \<noteq> [] then add_texts E texts else None) of
             Some e \<Rightarrow> Inl e
           | None \<Rightarrow>
               (case similarity_search E texts question of
                  Inl e \<Rightarrow> Inl e
                | Inr final_results \<Rightarrow>
                    if final_results \<noteq> [] then Inr final_results
                    else Inr [''No relevant information found.''])))"

text \<open>The body of the \<open>try\<close> of \<open>search\<close>. Iterating over \<open>None\<close> raises \<open>TypeError\<close>.\<close>

definition search_try :: "env \<Rightarrow> string \<Rightarrow> exn + result" where
  "search_try E question =
     (case webscraper E question of
        Inl e \<Rightarrow> Inl e
      | Inr None \<Rightarrow> Inl (Exn TypeError ''NoneType object is not iterable'')
      | Inr (Some results) \<Rightarrow>
          (let texts = keep_results results
           in case retrieve E question texts of
                Inl e \<Rightarrow> Inl e
              | Inr final_results \<Rightarrow>
                  (let total_extracted_info = gather_extracted_info E question final_results
                   in case finalized_chain E question total_extracted_info of
                        Inl e \<Rightarrow> Inl e
                      | Inr finalized_summary \<Rightarrow>
                          Inr \<lparr>search_results = texts,
                               extracted_info = Summary finalized_summary\<rparr>)))"

definition degraded :: result where
  "degraded = \<lparr>search_results = [], extracted_info = EmptyList\<rparr>"

definition search :: "env \<Rightarrow> string \<Rightarrow> result" where
  "search E question = (case search_try E question of Inr r \<Rightarrow> r | Inl e \<Rightarrow> degraded)"

section \<open>The result cache: \<open>search_web\<close>\<close>

text \<open>
  \<open>search_web(request, query)\<close> is wrapped by \<open>alru_cache(ttl = TTL_CACHE)\<close>. The cache
  key is made of all the arguments of the call, so of the request object and the query. A
  request object is equal only to itself (Starlette's \<open>Request\<close> compares and hashes by
  identity), and is modelled by a number that identifies it. An entry holds the value and
  the time at which its timer removes it (\<open>ttl\<close> after the call; a call is taken to
  complete at the time it is made, and the calls come one after the other). The entries
  are in the order of use, the least recently used first, and at most \<open>maxsize = 128\<close> of
  them are kept. \<open>computed\<close> lists the calls that ran the wrapped function.
\<close>

type_synonym cache_key = "nat \<times> string"

record cache =
  entries :: "(cache_key \<times> info \<times> nat) list"
  computed :: "cache_key list"

definition empty_cache :: cache where
  "empty_cache = \<lparr>entries = [], computed = []\<rparr>"

text \<open>The wrapped function.\<close>

definition search_web_body :: "env \<Rightarrow> nat \<Rightarrow> string \<Rightarrow> info" where
  "search_web_body E request query = extracted_info (search E query)"

definition live :: "nat \<Rightarrow> (cache_key \<times> info \<times> nat) list \<Rightarrow> (cache_key \<times> info \<times> nat) list" where
  "live now es = filter (\<lambda>(key, v, expires). now < expires) es"

definition search_web :: "env \<Rightarrow> nat \<Rightarrow> nat \<Rightarrow> cache \<Rightarrow> nat \<Rightarrow> string \<Rightarrow> info \<times> cache" where
  "search_web E ttl now c request query =
     (let key = (request, query); es = live now (entries c)
      in case map_of es key of
           Some (v, expires) \<Rightarrow>
             (v, c\<lparr>entries := filter (\<lambda>(k, x). k \<noteq> key) es @ [(key, v, expires)]\<rparr>)
         | None \<Rightarrow>
             (let v = search_web_body E request query;
                  es = es @ [(key, v, now + ttl)];
                  es = (if 128 < length es then tl es else es)
              in (v, \<lparr>entries = es, computed = computed c @ [key]\<rparr>)))"

section \<open>The admission gate of \<open>gather_extracted_info\<close>\<close>

text \<open>
  \<open>gather_extracted_info\<close> makes one \<open>safe_extract\<close> task for each passage and one
  \<open>asyncio.Semaphore(5)\<close>. A task is created, then inside \<open>async with semaphore\<close>
  (its \<open>extract_information\<close> call is in flight), then done. Which task moves next is
  up to the event loop, so the steps are a relation: a task enters when the semaphore's
  value is positive and takes one from it; a task that leaves gives one back.
\<close>

datatype task = Created | InFlight | Done

record gate =
  semaphore :: nat
  tasks :: "task list"

definition start :: "nat \<Rightarrow> gate" where
  "start n = \<lparr>semaphore = 5, tasks = replicate n Created\<rparr>"

definition in_flight :: "gate \<Rightarrow> nat" where
  "in_flight s = length (filter (\<lambda>t. t = InFlight) (tasks s))"

inductive gate_step :: "gate \<Rightarrow> gate \<Rightarrow> bool" where
  enter: "i < length (tasks s) \<Longrightarrow> tasks s ! i = Created \<Longrightarrow> 0 < semaphore s \<Longrightarrow>
     gate_step s \<lparr>semaphore = semaphore s - 1, tasks = (tasks s)[i := InFlight]\<rparr>"
| leave: "i < length (tasks s) \<Longrightarrow> tasks s ! i = InFlight \<Longrightarrow>
     gate_step s \<lparr>semaphore = semaphore s + 1, tasks = (tasks s)[i := Done]\<rparr>"

inductive gate_reachable :: "nat \<Rightarrow> gate \<Rightarrow> bool" where
  initial: "gate_reachable n (start n)"
| later: "gate_reachable n s \<Longrightarrow> gate_step s t \<Longrightarrow> gate_reachable n t"

section \<open>Concrete worlds for the examples\<close>

definition no_service :: exn where
  "no_service = Exn OtherException ''service not available''"

text \<open>A world in which every service fails; the examples switch single services on.\<close>

definition offline :: env where
  "offline = \<lparr>SEARCH_URL = ''http://search.local/search'',
     search_service = (\<lambda>_. Inl no_service),
     http_get = (\<lambda>_. Inl no_service),
     markdownify = (\<lambda>_. Inl no_service),
     urlparse = (\<lambda>_. Inl no_service),
     split_text = (\<lambda>_. Inl no_service),
     parser_parse = (\<lambda>_. Inl no_service),
     get_vector_store = Some no_service,
     add_texts = (\<lambda>_. Some no_service),
     similarity_search = (\<lambda>_ _. Inl no_service),
     extraction_chain = (\<lambda>_ _. Inl no_service),
     finalized_chain = (\<lambda>_ _. Inl no_service)\<rparr>"

text \<open>Seven results, all passing the filters, the first two equal: six distinct URLs.\<close>

definition seven_results :: "url_field list" where
  "seven_results =
     [Url ''https://a.org/1'', Url ''https://a.org/1'', Url ''https://a.org/2'',
      Url ''https://a.org/3'', Url ''https://a.org/4'', Url ''https://a.org/5'',
      Url ''https://a.org/6'']"

definition seven_urls :: "string list" where
  "seven_urls =
     [''https://a.org/1'', ''https://a.org/1'', ''https://a.org/2'',
      ''https://a.org/3'', ''https://a.org/4'', ''https://a.org/5'',
      ''https://a.org/6'']"

definition six_results :: "url_field list" where
  "six_results =
     [Url ''https://a.org/1'', Url ''https://a.org/2'', Url ''https://a.org/3'',
      Url ''https://a.org/4.PDF'', Url ''https://a.org/4'', NoUrl,
      Url ''https://www.youtube.com/5'', Url ''https://a.org/5'', Url ''https://a.org/6'',
      Url ''https://a.org/7'']"

definition six_urls :: "string list" where
  "six_urls =
     [''https://a.org/1'', ''https://a.org/2'', ''https://a.org/3'',
      ''https://a.org/4'', ''https://a.org/5'', ''https://a.org/6'']"

text \<open>
  A world in which the services answer: the search service names two pages, the first
  is fetched and the second times out, the store returns the first three texts it holds,
  and the two model calls echo the text they are given.
\<close>

definition two_results :: "url_field list" where
  "two_results = [Url ''https://a.org/1'', Url ''https://b.org/2'']"

definition online :: env where
  "online = \<lparr>SEARCH_URL = ''http://search.local/search'',
     search_service = (\<lambda>_. Inr (200, two_results)),
     http_get = (\<lambda>url. if url = ''https://a.org/1'' then Inr (200, Inr ''<p>Hi</p>'')
                       else Inl (Exn AsyncioTimeoutError ''timed out'')),
     markdownify = (\<lambda>_. Inr ''Hi''),
     urlparse = (\<lambda>url. Inr ([], [], url)),
     split_text = (\<lambda>text. Inr [text]),
     parser_parse = (\<lambda>text. Inr text),
     get_vector_store = None,
     add_texts = (\<lambda>_. None),
     similarity_search = (\<lambda>texts _. Inr (take 3 texts)),
     extraction_chain = (\<lambda>_ passage. Inr passage),
     finalized_chain = (\<lambda>_ facts. Inr facts)\<rparr>"

text \<open>The same world with an extraction model that marks what it is given.\<close>

definition tagging :: env where
  "tagging = online\<lparr>extraction_chain := (\<lambda>_ passage. Inr (''fact: '' @ passage))\<rparr>"

text \<open>Six passages, five of them admitted and in flight.\<close>

definition five_in_flight :: gate where
  "five_in_flight =
     \<lparr>semaphore = 0, tasks = [InFlight, InFlight, InFlight, InFlight, InFlight, Created]\<rparr>"

section \<open>URL discovery\<close>

lemma filter_urls_ok: "filter_urls rs = Inr us \<Longrightarrow> \<forall>u \<in> set us. url_ok u"
  by (induction rs arbitrary: us rule: filter_urls.induct)
     (auto split: sum.splits if_splits)

lemmas url_eval =
  url_ok_def endswith_def lower_def lower_char_def is_upper_def blocked_domains_def skip_set_def

lemma length_remdups_take: "length (remdups (take n xs)) \<le> n"
  by (rule order_trans [OF length_remdups_leq]) simp

lemma filter_seven: "filter_urls seven_results = Inr seven_urls"
  by (simp add: seven_results_def seven_urls_def url_eval)

lemma filter_six: "filter_urls six_results = Inr (six_urls @ [''https://a.org/7''])"
  by (simp add: six_results_def six_urls_def url_eval)

text \<open>
  C3, as stated, fails. The code truncates the filtered list to its first six entries
  and deduplicates afterwards. Of the seven results of \<open>seven_results\<close> all pass the
  filters and six are distinct, and \<open>get_news_urls\<close> returns five URLs.
\<close>

theorem get_news_urls_dedup_after_truncation:
  "filter_urls seven_results = Inr seven_urls
   \<and> card (set seven_urls) = 6
   \<and> get_news_urls (offline\<lparr>search_service := (\<lambda>_. Inr (200, seven_results))\<rparr>) ''news''
       = Inr [''https://a.org/1'', ''https://a.org/2'', ''https://a.org/3'',
              ''https://a.org/4'', ''https://a.org/5'']"
proof -
  have "card (set seven_urls) = 6"
    by (simp add: seven_urls_def card_insert_if)
  moreover have "get_news_urls (offline\<lparr>search_service := (\<lambda>_. Inr (200, seven_results))\<rparr>)
      ''news'' = Inr (remdups (take 6 seven_urls))"
    by (simp add: get_news_urls_def filter_seven)
  ultimately show ?thesis
    by (simp add: filter_seven) (simp add: seven_urls_def)
qed

text \<open>
  C3, amended: \<open>get_news_urls\<close> truncates the filtered candidates to the first six and
  then deduplicates them. Whatever the search service replies, a returned list has no
  duplicate, holds only \<open>https://\<close> URLs that do not end in \<open>.pdf\<close> (in any case) and
  contain no blocklisted domain, and has at most six entries; it has exactly six when the
  service answers 200 and the first six candidates passing the filters exist and are
  pairwise distinct.
\<close>

theorem get_news_urls_result:
  assumes "get_news_urls E query = Inr out"
  shows "distinct out \<and> length out \<le> 6
     \<and> (\<forall>u \<in> set out. startswith u ''https://'' \<and> \<not> endswith (lower u) ''.pdf''
           \<and> (\<forall>d \<in> set blocked_domains. \<not> py_in d u))
     \<and> (\<forall>results urls.
           search_service E (SEARCH_URL E @ ''?q='' @ modify_query query @ ''&format=json'')
             = Inr (200, results)
           \<and> filter_urls results = Inr urls \<and> 6 \<le> length urls \<and> distinct (take 6 urls)
           \<longrightarrow> length out = 6)"
proof -
  have "distinct out"
    using assms by (auto simp: get_news_urls_def split: sum.splits if_splits)
  moreover have "length out \<le> 6"
    using assms
    by (auto simp: get_news_urls_def length_remdups_take split: sum.splits if_splits)
  moreover have "\<forall>u \<in> set out. url_ok u"
    using assms
    by (auto simp: get_news_urls_def split: sum.splits if_splits
        dest!: filter_urls_ok in_set_takeD)
  moreover have "length out = 6"
    if "search_service E (SEARCH_URL E @ ''?q='' @ modify_query query @ ''&format=json'')
          = Inr (200, results)"
      and "filter_urls results = Inr urls" and "6 \<le> length urls" and "distinct (take 6 urls)"
    for results urls
  proof -
    from assms that(1,2) have "out = remdups (take 6 urls)"
      by (simp add: get_news_urls_def)
    with that(3,4) show ?thesis
      by (simp add: distinct_remdups_id)
  qed
  ultimately show ?thesis
    by (auto simp: url_ok_def list_all_iff)
qed

theorem get_news_urls_result_witness:
  "get_news_urls (offline\<lparr>search_service := (\<lambda>_. Inr (200, six_results))\<rparr>) ''latest news''
     = Inr six_urls
   \<and> distinct six_urls \<and> length six_urls = 6
   \<and> list_all (\<lambda>u. \<not> endswith (lower u) ''.pdf'') six_urls"
proof -
  let ?E = "offline\<lparr>search_service := (\<lambda>_. Inr (200, six_results))\<rparr>"
  have run: "get_news_urls ?E ''latest news'' = Inr six_urls"
    by (simp add: get_news_urls_def filter_six) (simp add: six_urls_def)
  have "search_service ?E (SEARCH_URL ?E @ ''?q='' @ modify_query ''latest news'' @ ''&format=json'')
          = Inr (200, six_results)
        \<and> filter_urls six_results = Inr (six_urls @ [''https://a.org/7''])
        \<and> 6 \<le> length (six_urls @ [''https://a.org/7''])
        \<and> distinct (take 6 (six_urls @ [''https://a.org/7'']))"
    by (simp add: filter_six) (simp add: six_urls_def)
  with get_news_urls_result [OF run] show ?thesis
    using run by (simp add: list_all_iff)
qed

section \<open>Fetching and the pipeline\<close>

lemma strip_not_blank: "\<exists>c \<in> set s. \<not> is_space c \<Longrightarrow> strip s \<noteq> []"
proof -
  assume ex: "\<exists>c \<in> set s. \<not> is_space c"
  then have ne: "dropWhile is_space s \<noteq> []"
    by (simp add: dropWhile_eq_Nil_conv)
  then have "\<not> is_space (hd (dropWhile is_space s))"
    by (rule hd_dropWhile)
  moreover from ne have "hd (dropWhile is_space s) \<in> set (rev (dropWhile is_space s))"
    by simp
  ultimately have "dropWhile is_space (rev (dropWhile is_space s)) \<noteq> []"
    unfolding dropWhile_eq_Nil_conv by blast
  then show ?thesis
    by (simp add: strip_def)
qed

lemma bracket_not_space: "\<not> is_space CHR ''[''"
  by (simp add: is_space_def in_range_def)

lemma letter_S_not_space: "\<not> is_space CHR ''S''"
  by (simp add: is_space_def in_range_def)

lemma fetch_article_try_raises:
  "fetch_article_try E url = Inl e \<longleftrightarrow>
     http_get E url = Inl e \<or> http_get E url = Inr (200, Inl e)"
  by (auto simp: fetch_article_try_def split: sum.splits prod.splits option.splits if_splits)

lemma fetch_article_shape:
  "(\<exists>t. fetch_article E url = CHR ''['' # t) \<or> (\<exists>t u. fetch_article E url = t @ ''\<newline>Source: '' @ u)"
  by (auto simp: fetch_article_def fetch_article_try_def split: sum.splits prod.splits option.splits if_splits)

lemma fetch_article_not_blank: "strip (fetch_article E url) \<noteq> []"
proof -
  have "\<exists>c \<in> set (fetch_article E url). \<not> is_space c"
    using fetch_article_shape [of E url] bracket_not_space letter_S_not_space
    by (elim disjE exE) (simp, force)
  then show ?thesis by (rule strip_not_blank)
qed

lemma keep_results_fetched: "keep_results (map (fetch_article E) urls) = map (fetch_article E) urls"
  by (simp add: keep_results_def fetch_article_not_blank)

text \<open>
  C5. \<open>fetch_article\<close> is a total function into strings: no exception leaves it. A
  status other than 200 gives the \<open>[Fetch Failed: status]\<close> marker; a page whose parsing
  gives text gives that text followed by the line \<open>Source: url\<close>; a page whose parsing
  gives nothing or the empty text gives \<open>[Parse Failed]\<close>; an exception raised by the
  request or by reading the body gives \<open>[Timeout]\<close> when it is a timeout,
  \<open>[ClientError]\<close> when it is another client error, and \<open>[UnhandledError]\<close> otherwise.
\<close>

theorem fetch_article_outcomes:
  "(\<forall>status body. http_get E url = Inr (status, body) \<and> status \<noteq> 200 \<longrightarrow>
       fetch_article E url = ''[Fetch Failed: '' @ str_nat status @ ''] '' @ url)
   \<and> (\<forall>html parsed. http_get E url = Inr (200, Inr html)
         \<and> parse_html_content E html = Some parsed \<and> parsed \<noteq> [] \<longrightarrow>
       fetch_article E url = parsed @ ''\<newline>Source: '' @ url @ ''\<newline>'')
   \<and> (\<forall>html. http_get E url = Inr (200, Inr html)
         \<and> (parse_html_content E html = None \<or> parse_html_content E html = Some []) \<longrightarrow>
       fetch_article E url = ''[Parse Failed] '' @ url)
   \<and> (\<forall>e. (http_get E url = Inl e \<or> http_get E url = Inr (200, Inl e)) \<longrightarrow>
       fetch_article E url =
         (if is_timeout e then ''[Timeout] '' @ url
          else if is_client_error e then ''[ClientError] '' @ url
          else ''[UnhandledError] '' @ url))"
  by (auto simp: fetch_article_def fetch_article_try_def)

text \<open>
  C4. For a non-empty list of discovered URLs \<open>webscraper\<close> returns one outcome for each
  URL, the i-th outcome being that of the i-th URL; this is so whatever the fetches do,
  and when every request fails the outcomes are the failure markers of the URLs.
\<close>

theorem webscraper_outcomes:
  assumes "get_news_urls E query = Inr urls" and "urls \<noteq> []"
  shows "\<exists>outcomes. webscraper E query = Inr (Some outcomes)
     \<and> length outcomes = length urls
     \<and> (\<forall>i < length urls. outcomes ! i = fetch_article E (urls ! i))
     \<and> ((\<forall>u \<in> set urls. \<exists>e. http_get E u = Inl e) \<longrightarrow>
          (\<forall>i < length urls.
             outcomes ! i \<in> {''[Timeout] '' @ urls ! i, ''[ClientError] '' @ urls ! i,
                              ''[UnhandledError] '' @ urls ! i}))"
proof -
  let ?outcomes = "map (fetch_article E) urls"
  have "webscraper E query = Inr (Some ?outcomes)"
    using assms by (simp add: webscraper_def)
  moreover have "fetch_article E (urls ! i) \<in> {''[Timeout] '' @ urls ! i, ''[ClientError] '' @ urls ! i,
                              ''[UnhandledError] '' @ urls ! i}"
    if "\<forall>u \<in> set urls. \<exists>e. http_get E u = Inl e" and "i < length urls" for i
  proof -
    from that obtain e where "http_get E (urls ! i) = Inl e"
      using nth_mem by blast
    then show ?thesis
      by (simp add: fetch_article_def fetch_article_try_def)
  qed
  ultimately show ?thesis by simp
qed

text \<open>
  C10. When discovery returns the empty list, \<open>webscraper\<close> returns \<open>None\<close>, the
  filtering in \<open>search\<close> raises \<open>TypeError\<close>, the handler catches it, and \<open>search\<close> returns
  the result with empty \<open>search_results\<close> and empty \<open>extracted_info\<close>.
\<close>

theorem no_urls_degraded:
  assumes "get_news_urls E query = Inr []"
  shows "webscraper E query = Inr None
     \<and> search_try E query = Inl (Exn TypeError ''NoneType object is not iterable'')
     \<and> search E query = degraded"
  using assms by (simp add: webscraper_def search_try_def search_def)

lemma search_shape:
  "search E q = degraded \<or> (\<exists>texts summary. search E q = \<lparr>search_results = texts, extracted_info = Summary summary\<rparr>)"
  by (auto simp: search_def search_try_def Let_def split: sum.splits option.splits)

lemma search_try_Some:
  "webscraper E q = Inr (Some results) \<Longrightarrow> keep_results results = results \<and> results \<noteq> []"
  by (auto simp: webscraper_def keep_results_fetched split: sum.splits if_splits)

text \<open>
  C7. \<open>search\<close> is a total function into results: it returns either the degraded
  result (empty \<open>search_results\<close>, empty \<open>extracted_info\<close>) or a list of texts with a
  summary. A failure of discovery, of the vector store, of indexing, of retrieval or of
  the summarising call gives the degraded result. (A failed fetch is a marker and a failed
  extraction an inline text: neither raises.)
\<close>

theorem search_never_raises:
  "(search E q = degraded
      \<or> (\<exists>texts summary. search E q = \<lparr>search_results = texts, extracted_info = Summary summary\<rparr>))
   \<and> ((\<exists>e. get_news_urls E q = Inl e) \<longrightarrow> search E q = degraded)
   \<and> ((\<exists>e. get_vector_store E = Some e) \<longrightarrow> search E q = degraded)
   \<and> ((\<forall>texts. \<exists>e. add_texts E texts = Some e) \<longrightarrow> search E q = degraded)
   \<and> ((\<forall>texts. \<exists>e. similarity_search E texts q = Inl e) \<longrightarrow> search E q = degraded)
   \<and> ((\<forall>facts. \<exists>e. finalized_chain E q facts = Inl e) \<longrightarrow> search E q = degraded)"
proof (intro conjI impI)
  show "search E q = degraded
      \<or> (\<exists>texts summary. search E q = \<lparr>search_results = texts, extracted_info = Summary summary\<rparr>)"
    by (rule search_shape)
next
  assume "\<exists>e. get_news_urls E q = Inl e"
  then show "search E q = degraded"
    by (auto simp: search_def search_try_def webscraper_def)
next
  assume "\<exists>e. get_vector_store E = Some e"
  then show "search E q = degraded"
    by (auto simp: search_def search_try_def retrieve_def split: sum.splits option.splits)
next
  assume a: "\<forall>texts. \<exists>e. add_texts E texts = Some e"
  show "search E q = degraded"
  proof (cases "webscraper E q")
    case (Inl e)
    then show ?thesis by (simp add: search_def search_try_def)
  next
    case (Inr r)
    show ?thesis
    proof (cases r)
      case None
      with Inr show ?thesis by (simp add: search_def search_try_def)
    next
      case (Some results)
      with Inr have k: "keep_results results = results" "results \<noteq> []"
        using search_try_Some by blast+
      from a obtain e where "add_texts E results = Some e" by blast
      with Inr Some k show ?thesis
        by (simp add: search_def search_try_def retrieve_def split: option.splits)
    qed
  qed
next
  assume a: "\<forall>texts. \<exists>e. similarity_search E texts q = Inl e"
  have "retrieve E q texts \<noteq> Inr p" for texts p
  proof -
    from a obtain e where "similarity_search E texts q = Inl e" by blast
    then show ?thesis by (auto simp: retrieve_def split: option.splits if_splits)
  qed
  then show "search E q = degraded"
    by (auto simp: search_def search_try_def Let_def split: sum.splits option.splits)
next
  assume a: "\<forall>facts. \<exists>e. finalized_chain E q facts = Inl e"
  have "finalized_chain E q facts \<noteq> Inr p" for facts p
    using a by (metis sum.distinct(1))
  then show "search E q = degraded"
    by (auto simp: search_def search_try_def Let_def split: sum.splits option.splits)
qed


lemmas rx_eval =
  sub_def sub_i_def grp_def ws_def wd_def dg_def sp_def so_def any_lazy_def bold_def http_def
  oneof_def noneof_def words_def beyond_latin1_def plus1_def opt_def
  is_space_def is_digit_def is_word_def in_range_def lower_char_def is_upper_def lower_def
  word_before_def word_next_def

lemmas clean_eval =
  clean_def Let_def normalize_line_breaks_def extract_article_date_def
  date_pattern_def month_def capital_def clean_date_of_def
  clean_image_references_def clean_image_ref_def img_pattern_def
  remove_logos_def logo_patterns_def logo_terms_def small_size_def in_tag_def
  remove_general_links_def link_pattern_def
  fix_text_formatting_def
  remove_betting_promotions_def betting_patterns_def betting_keywords_def shortener_def drop_lines_def
  remove_social_media_promotions_def social_patterns_def social_keywords_def networks_def
  remove_other_article_promotions_def article_patterns_def linked_def
  remove_footer_elements_def footer_patterns_def copyright_sign_def
  fix_bold_formatting_def
  fix_heading_structure_def team_match_pattern_def team_def stadium_pattern_def match_info_pattern_def
  clean_whitespace_def heading_line_def strip_def

lemma clean_Hi: "clean up ''Hi'' = Inr ''Hi''"
  by (simp add: clean_eval rx_eval)

lemma online_urls: "get_news_urls online q = Inr [''https://a.org/1'', ''https://b.org/2'']"
  by (simp add: get_news_urls_def online_def two_results_def url_eval)

lemma online_fields:
  "markdownify online html = Inr ''Hi''"
  "split_text online text = Inr [text]"
  "parser_parse online text = Inr text"
  "http_get online ''https://a.org/1'' = Inr (200, Inr ''<p>Hi</p>'')"
  "http_get online ''https://b.org/2'' = Inl (Exn AsyncioTimeoutError ''timed out'')"
  "get_vector_store online = None"
  "add_texts online texts = None"
  "similarity_search online texts q = Inr (take 3 texts)"
  "extraction_chain online q passage = Inr passage"
  "finalized_chain online q facts = Inr facts"
  by (simp_all add: online_def)

lemma online_parse: "parse_html_content online ''<p>Hi</p>'' = Some ''Hi\<newline>''"
  by (simp add: parse_html_content_def online_fields clean_Hi)

lemma online_fetch_1:
  "fetch_article online ''https://a.org/1'' = ''Hi\<newline>\<newline>Source: https://a.org/1\<newline>''"
  by (simp add: fetch_article_def fetch_article_try_def online_fields online_parse)

lemma online_fetch_2: "fetch_article online ''https://b.org/2'' = ''[Timeout] https://b.org/2''"
  by (simp add: fetch_article_def fetch_article_try_def online_fields is_timeout_def)

lemma online_webscraper:
  "webscraper online q =
     Inr (Some [''Hi\<newline>\<newline>Source: https://a.org/1\<newline>'', ''[Timeout] https://b.org/2''])"
  by (simp add: webscraper_def online_urls online_fetch_1 online_fetch_2)

theorem fetch_article_outcomes_witness:
  "fetch_article (offline\<lparr>http_get := (\<lambda>_. Inr (404, Inr []))\<rparr>) ''https://a.org/1''
     = ''[Fetch Failed: 404] https://a.org/1''
   \<and> fetch_article online ''https://a.org/1'' = ''Hi\<newline>\<newline>Source: https://a.org/1\<newline>''
   \<and> fetch_article online ''https://b.org/2'' = ''[Timeout] https://b.org/2''"
proof -
  let ?E = "offline\<lparr>http_get := (\<lambda>_. Inr (404, Inr []))\<rparr>"
  have "http_get ?E ''https://a.org/1'' = Inr (404, Inr []) \<and> (404::nat) \<noteq> 200"
    by simp
  with fetch_article_outcomes [of ?E "''https://a.org/1''"]
  have "fetch_article ?E ''https://a.org/1'' = ''[Fetch Failed: '' @ str_nat 404 @ ''] '' @ ''https://a.org/1''"
    by blast
  moreover have "str_nat 404 = ''404''"
    by (simp add: str_nat.simps)
  moreover have "http_get online ''https://b.org/2'' = Inl (Exn AsyncioTimeoutError ''timed out'')"
    by (simp add: online_fields)
  with fetch_article_outcomes [of online "''https://b.org/2''"]
  have "fetch_article online ''https://b.org/2'' = ''[Timeout] https://b.org/2''"
    by (simp add: is_timeout_def)
  ultimately show ?thesis
    by (simp add: online_fetch_1)
qed

theorem webscraper_outcomes_witness:
  "webscraper (offline\<lparr>search_service := (\<lambda>_. Inr (200, two_results))\<rparr>) ''news''
     = Inr (Some [''[UnhandledError] https://a.org/1'', ''[UnhandledError] https://b.org/2''])"
proof -
  let ?E = "offline\<lparr>search_service := (\<lambda>_. Inr (200, two_results))\<rparr>"
  let ?urls = "[''https://a.org/1'', ''https://b.org/2'']"
  have urls: "get_news_urls ?E ''news'' = Inr ?urls"
    by (simp add: get_news_urls_def two_results_def url_eval)
  have "?urls \<noteq> []" by simp
  from webscraper_outcomes [OF urls this]
  obtain outcomes where o: "webscraper ?E ''news'' = Inr (Some outcomes)"
    "length outcomes = 2"
    "\<forall>i < length ?urls. outcomes ! i = fetch_article ?E (?urls ! i)"
    by auto
  have f: "fetch_article ?E u = ''[UnhandledError] '' @ u" for u
    by (simp add: fetch_article_def fetch_article_try_def offline_def no_service_def
        is_timeout_def is_client_error_def)
  from o(3) have "outcomes ! 0 = fetch_article ?E ''https://a.org/1''"
    and "outcomes ! 1 = fetch_article ?E ''https://b.org/2''"
    by auto
  with o(2) have "outcomes = [''[UnhandledError] https://a.org/1'', ''[UnhandledError] https://b.org/2'']"
    by (cases outcomes; cases "tl outcomes") (auto simp: f)
  with o(1) show ?thesis by simp
qed

theorem no_urls_degraded_witness:
  "search (offline\<lparr>search_service := (\<lambda>_. Inr (200, [NoUrl, Url ''http://a.org/1'']))\<rparr>) ''news''
     = \<lparr>search_results = [], extracted_info = EmptyList\<rparr>"
proof -
  let ?E = "offline\<lparr>search_service := (\<lambda>_. Inr (200, [NoUrl, Url ''http://a.org/1'']))\<rparr>"
  have "get_news_urls ?E ''news'' = Inr []"
    by (simp add: get_news_urls_def url_eval)
  from no_urls_degraded [OF this] show ?thesis
    by (simp add: degraded_def)
qed

lemma online_search:
  "search online ''news'' =
     \<lparr>search_results = [''Hi\<newline>\<newline>Source: https://a.org/1\<newline>'', ''[Timeout] https://b.org/2''],
      extracted_info = Summary ''Hi\<newline>\<newline>Source: https://a.org/1\<newline>\<newline>\<newline>[Timeout] https://b.org/2''\<rparr>"
proof -
  have k: "keep_results [''Hi\<newline>\<newline>Source: https://a.org/1\<newline>'', ''[Timeout] https://b.org/2'']
      = [''Hi\<newline>\<newline>Source: https://a.org/1\<newline>'', ''[Timeout] https://b.org/2'']"
    using keep_results_fetched [of online "[''https://a.org/1'', ''https://b.org/2'']"]
    by (simp add: online_fetch_1 online_fetch_2)
  show ?thesis
    unfolding search_def search_try_def online_webscraper
    by (simp add: k Let_def online_fields retrieve_def gather_extracted_info_def
        extract_information_def)
qed

theorem search_never_raises_witness:
  "search offline ''news'' = \<lparr>search_results = [], extracted_info = EmptyList\<rparr>
   \<and> search online ''news'' =
     \<lparr>search_results = [''Hi\<newline>\<newline>Source: https://a.org/1\<newline>'', ''[Timeout] https://b.org/2''],
      extracted_info = Summary ''Hi\<newline>\<newline>Source: https://a.org/1\<newline>\<newline>\<newline>[Timeout] https://b.org/2''\<rparr>"
proof -
  have "\<exists>e. get_news_urls offline ''news'' = Inl e"
    by (simp add: get_news_urls_def offline_def)
  with search_never_raises [of offline "''news''"] have "search offline ''news'' = degraded"
    by blast
  then show ?thesis
    by (simp add: degraded_def online_search)
qed


text \<open>
  The text \<open>gather_extracted_info\<close> returns has, for each passage, what
  \<open>extract_information\<close> returns for it.
\<close>

lemma join_Cons: "join sep (x # xs) = x @ (if xs = [] then [] else sep @ join sep xs)"
  by (cases xs) simp_all

lemma join_map_member:
  "m \<in> set xs \<Longrightarrow> \<exists>pre post. join sep (map f xs) = pre @ f m @ post"
proof (induction xs)
  case Nil
  then show ?case by simp
next
  case (Cons x xs)
  show ?case
  proof (cases "m = x")
    case True
    have "join sep (map f (x # xs)) = [] @ f x @ (if xs = [] then [] else sep @ join sep (map f xs))"
      by (simp add: join_Cons)
    with True show ?thesis by blast
  next
    case False
    with Cons.prems have m: "m \<in> set xs" by simp
    then obtain pre post where "join sep (map f xs) = pre @ f m @ post"
      using Cons.IH by blast
    moreover from m have "xs \<noteq> []" by auto
    ultimately have "join sep (map f (x # xs)) = (f x @ sep @ pre) @ f m @ post"
      by (simp add: join_Cons)
    then show ?thesis by blast
  qed
qed

text \<open>
  C9. A fetch that fails gives a marker that is not empty and not blank. \<open>webscraper\<close>
  returns it among its results and the filter before indexing keeps it, so it is one of
  the texts \<open>search\<close> hands to \<open>add_texts\<close> and to the similarity search. Whenever the
  store returns it among the passages, \<open>gather_extracted_info\<close> calls the extraction
  model on it, and the answer (or the error text of \<open>extract_information\<close>) is part of
  what the final model call is given.
\<close>

theorem failure_markers_reach_extraction:
  assumes urls: "get_news_urls E q = Inr urls" and url: "url \<in> set urls"
    and fetched: "fetch_article E url = marker"
    and failed: "marker \<in> {''[Timeout] '' @ url, ''[ClientError] '' @ url,
                            ''[UnhandledError] '' @ url, ''[Parse Failed] '' @ url}
                 \<or> (\<exists>status. marker = ''[Fetch Failed: '' @ str_nat status @ ''] '' @ url)"
  shows "marker \<noteq> [] \<and> strip marker \<noteq> []
     \<and> webscraper E q = Inr (Some (map (fetch_article E) urls))
     \<and> marker \<in> set (keep_results (map (fetch_article E) urls))
     \<and> (\<forall>texts. texts = keep_results (map (fetch_article E) urls) \<longrightarrow>
          retrieve E q texts =
            (case get_vector_store E of
               Some e \<Rightarrow> Inl e
             | None \<Rightarrow>
                 (case add_texts E texts of
                    Some e \<Rightarrow> Inl e
                  | None \<Rightarrow>
                      (case similarity_search E texts q of
                         Inl e \<Rightarrow> Inl e
                       | Inr docs \<Rightarrow>
                           Inr (if docs \<noteq> [] then docs else [''No relevant information found.'']))))
          \<and> search_try E q =
            (case retrieve E q texts of
               Inl e \<Rightarrow> Inl e
             | Inr passages \<Rightarrow>
                 (case finalized_chain E q
                         (join ''\<newline>\<newline>'' (map (extract_information E q) passages)) of
                    Inl e \<Rightarrow> Inl e
                  | Inr summary \<Rightarrow>
                      Inr \<lparr>search_results = texts, extracted_info = Summary summary\<rparr>))
          \<and> (\<forall>passages. retrieve E q texts = Inr passages \<and> marker \<in> set passages \<longrightarrow>
                (\<exists>pre post. gather_extracted_info E q passages =
                   pre @ (case extraction_chain E q marker of
                            Inr answer \<Rightarrow> answer
                          | Inl e \<Rightarrow> ''Error extracting information: '' @ exn_msg e) @ post)))"
proof -
  let ?texts = "map (fetch_article E) urls"
  from failed have "\<exists>t. marker = CHR ''['' # t"
    by auto
  then have "\<exists>c \<in> set marker. \<not> is_space c"
    using bracket_not_space by auto
  then have s: "strip marker \<noteq> []"
    by (rule strip_not_blank)
  then have ne: "marker \<noteq> []"
    by (auto simp: strip_def)
  from url have nonempty: "urls \<noteq> []" by auto
  with urls have w: "webscraper E q = Inr (Some ?texts)"
    by (simp add: webscraper_def)
  have k: "keep_results ?texts = ?texts"
    by (rule keep_results_fetched)
  from url fetched have m: "marker \<in> set ?texts"
    by auto
  from nonempty have r: "retrieve E q ?texts =
            (case get_vector_store E of
               Some e \<Rightarrow> Inl e
             | None \<Rightarrow>
                 (case add_texts E ?texts of
                    Some e \<Rightarrow> Inl e
                  | None \<Rightarrow>
                      (case similarity_search E ?texts q of
                         Inl e \<Rightarrow> Inl e
                       | Inr docs \<Rightarrow>
                           Inr (if docs \<noteq> [] then docs else [''No relevant information found.'']))))"
    by (simp add: retrieve_def split: option.splits sum.splits)
  have t: "search_try E q =
            (case retrieve E q ?texts of
               Inl e \<Rightarrow> Inl e
             | Inr passages \<Rightarrow>
                 (case finalized_chain E q
                         (join ''\<newline>\<newline>'' (map (extract_information E q) passages)) of
                    Inl e \<Rightarrow> Inl e
                  | Inr summary \<Rightarrow>
                      Inr \<lparr>search_results = ?texts, extracted_info = Summary summary\<rparr>))"
    by (simp add: search_try_def w k gather_extracted_info_def Let_def split: sum.splits)
  have g: "\<exists>pre post. gather_extracted_info E q passages =
                   pre @ (case extraction_chain E q marker of
                            Inr answer \<Rightarrow> answer
                          | Inl e \<Rightarrow> ''Error extracting information: '' @ exn_msg e) @ post"
    if "marker \<in> set passages" for passages
    using join_map_member [OF that, of "''\<newline>\<newline>''" "extract_information E q"]
    by (simp add: gather_extracted_info_def extract_information_def)
  show ?thesis
    using s ne w m r t g by (simp add: k)
qed

text \<open>
  A run in which the second of two fetches times out: the marker is among the texts and
  the answer of the extraction model for it is in the summary.
\<close>

lemma tagging_same:
  "SEARCH_URL tagging = SEARCH_URL online" "search_service tagging = search_service online"
  "http_get tagging = http_get online" "markdownify tagging = markdownify online"
  "urlparse tagging = urlparse online" "split_text tagging = split_text online"
  "parser_parse tagging = parser_parse online"
  by (simp_all add: tagging_def)

lemma tagging_fields:
  "get_news_urls tagging q = get_news_urls online q"
  "fetch_article tagging url = fetch_article online url"
  "get_vector_store tagging = None"
  "add_texts tagging texts = None"
  "similarity_search tagging texts q = Inr (take 3 texts)"
  "extraction_chain tagging q passage = Inr (''fact: '' @ passage)"
  "finalized_chain tagging q facts = Inr facts"
proof -
  show "get_news_urls tagging q = get_news_urls online q"
    by (simp add: get_news_urls_def tagging_same)
  have p: "parse_html_content tagging = parse_html_content online"
    unfolding parse_html_content_def tagging_same by (rule refl)
  show "fetch_article tagging url = fetch_article online url"
    unfolding fetch_article_def fetch_article_try_def tagging_same p by (rule refl)
  show "get_vector_store tagging = None" "add_texts tagging texts = None"
    "similarity_search tagging texts q = Inr (take 3 texts)"
    "finalized_chain tagging q facts = Inr facts"
    by (simp_all add: tagging_def online_fields)
  show "extraction_chain tagging q passage = Inr (''fact: '' @ passage)"
    by (simp add: tagging_def)
qed

theorem failure_markers_reach_extraction_witness:
  "fetch_article tagging ''https://b.org/2'' = ''[Timeout] https://b.org/2''
   \<and> search_try tagging ''news'' =
       Inr \<lparr>search_results =
              [''Hi\<newline>\<newline>Source: https://a.org/1\<newline>'', ''[Timeout] https://b.org/2''],
            extracted_info = Summary
              ''fact: Hi\<newline>\<newline>Source: https://a.org/1\<newline>\<newline>\<newline>fact: [Timeout] https://b.org/2''\<rparr>"
proof -
  let ?m = "''[Timeout] https://b.org/2''"
  let ?urls = "[''https://a.org/1'', ''https://b.org/2'']"
  let ?texts = "[''Hi\<newline>\<newline>Source: https://a.org/1\<newline>'', ?m]"
  have urls: "get_news_urls tagging ''news'' = Inr ?urls"
    by (simp add: tagging_fields online_urls)
  have url: "''https://b.org/2'' \<in> set ?urls"
    by simp
  have fetched: "fetch_article tagging ''https://b.org/2'' = ?m"
    by (simp add: tagging_fields online_fetch_2)
  have failed: "?m \<in> {''[Timeout] '' @ ''https://b.org/2'', ''[ClientError] '' @ ''https://b.org/2'',
                 ''[UnhandledError] '' @ ''https://b.org/2'', ''[Parse Failed] '' @ ''https://b.org/2''}
           \<or> (\<exists>status. ?m = ''[Fetch Failed: '' @ str_nat status @ ''] '' @ ''https://b.org/2'')"
    by simp
  let ?T = "keep_results (map (fetch_article tagging) ?urls)"
  have texts: "?T = ?texts"
    using keep_results_fetched [of tagging ?urls]
    by (simp add: tagging_fields online_fetch_1 online_fetch_2)
  from failure_markers_reach_extraction [OF urls url fetched failed]
  have "retrieve tagging ''news'' ?T =
            (case get_vector_store tagging of
               Some e \<Rightarrow> Inl e
             | None \<Rightarrow>
                 (case add_texts tagging ?T of
                    Some e \<Rightarrow> Inl e
                  | None \<Rightarrow>
                      (case similarity_search tagging ?T ''news'' of
                         Inl e \<Rightarrow> Inl e
                       | Inr docs \<Rightarrow>
                           Inr (if docs \<noteq> [] then docs else [''No relevant information found.'']))))"
    and "search_try tagging ''news'' =
            (case retrieve tagging ''news'' ?T of
               Inl e \<Rightarrow> Inl e
             | Inr passages \<Rightarrow>
                 (case finalized_chain tagging ''news''
                         (join ''\<newline>\<newline>'' (map (extract_information tagging ''news'') passages)) of
                    Inl e \<Rightarrow> Inl e
                  | Inr summary \<Rightarrow>
                      Inr \<lparr>search_results = ?T, extracted_info = Summary summary\<rparr>))"
    by blast+
  then have "retrieve tagging ''news'' ?texts = Inr ?texts"
    and "search_try tagging ''news'' =
            (case retrieve tagging ''news'' ?texts of
               Inl e \<Rightarrow> Inl e
             | Inr passages \<Rightarrow>
                 (case finalized_chain tagging ''news''
                         (join ''\<newline>\<newline>'' (map (extract_information tagging ''news'') passages)) of
                    Inl e \<Rightarrow> Inl e
                  | Inr summary \<Rightarrow>
                      Inr \<lparr>search_results = ?texts, extracted_info = Summary summary\<rparr>))"
    unfolding texts by (simp_all add: tagging_fields)
  then show ?thesis
    using fetched by (simp add: tagging_fields extract_information_def)
qed

section \<open>The result cache\<close>

lemma offline_body: "search_web_body offline request query = EmptyList"
  by (simp add: search_web_body_def search_def search_try_def webscraper_def get_news_urls_def
      offline_def degraded_def)

text \<open>
  C1 does not hold of the code. The cache key holds the request object, so two calls
  with the same query that come with two request objects, one second apart and with a
  TTL of 300 seconds, both run the pipeline.
\<close>

theorem search_web_keyed_on_request:
  "computed (snd (search_web offline 300 1
       (snd (search_web offline 300 0 empty_cache 1 ''ab'')) 2 ''ab''))
     = [(1, ''ab''), (2, ''ab'')]"
  by (simp add: search_web_def live_def empty_cache_def offline_body Let_def)

text \<open>
  With the same request object the second call is served from the cache, and after the
  TTL the pipeline runs again.
\<close>

lemma search_web_same_request:
  "computed (snd (search_web offline 300 1
       (snd (search_web offline 300 0 empty_cache 1 ''ab'')) 1 ''ab''))
     = [(1, ''ab'')]"
  by (simp add: search_web_def live_def empty_cache_def offline_body Let_def)

lemma search_web_after_expiry:
  "computed (snd (search_web offline 300 300
       (snd (search_web offline 300 0 empty_cache 1 ''ab'')) 1 ''ab''))
     = [(1, ''ab''), (1, ''ab'')]"
  by (simp add: search_web_def live_def empty_cache_def offline_body Let_def)

section \<open>The admission gate\<close>

lemma count_update_in:
  "i < length xs \<Longrightarrow> xs ! i \<noteq> a \<Longrightarrow>
     length (filter (\<lambda>t. t = a) (xs[i := a])) = Suc (length (filter (\<lambda>t. t = a) xs))"
  by (induction xs arbitrary: i) (auto split: nat.splits)

lemma count_update_out:
  "i < length xs \<Longrightarrow> xs ! i = a \<Longrightarrow> b \<noteq> a \<Longrightarrow>
     Suc (length (filter (\<lambda>t. t = a) (xs[i := b]))) = length (filter (\<lambda>t. t = a) xs)"
  by (induction xs arbitrary: i) (auto split: nat.splits)

lemma gate_step_in_flight:
  assumes "gate_step s t"
  shows "(0 < semaphore s \<and> semaphore t = semaphore s - 1 \<and> in_flight t = Suc (in_flight s))
       \<or> (semaphore t = Suc (semaphore s) \<and> Suc (in_flight t) = in_flight s)"
  using assms
proof cases
  case (enter i)
  then show ?thesis
    by (simp add: in_flight_def count_update_in)
next
  case (leave i)
  then show ?thesis
    by (simp add: in_flight_def count_update_out)
qed

lemma gate_invariant:
  "gate_reachable n s \<Longrightarrow> semaphore s + in_flight s = 5 \<and> length (tasks s) = n"
proof (induction rule: gate_reachable.induct)
  case (initial n)
  show ?case by (simp add: start_def in_flight_def)
next
  case (later n s t)
  from later.hyps(2) have "length (tasks t) = length (tasks s)"
    by cases auto
  with later.IH gate_step_in_flight [OF later.hyps(2)] show ?case
    by auto
qed

text \<open>
  C8. In every state the tasks of \<open>gather_extracted_info\<close> can reach, at most five
  \<open>extract_information\<close> calls are in flight. With five in flight the only step is a
  call that completes, and a step that admits a call starts from fewer than five.
\<close>

theorem at_most_five_in_flight:
  assumes "gate_reachable n s"
  shows "in_flight s \<le> 5
     \<and> (\<forall>t. gate_step s t \<and> in_flight s = 5 \<longrightarrow> in_flight t = 4)
     \<and> (\<forall>t. gate_step s t \<and> in_flight s < in_flight t \<longrightarrow> in_flight s < 5 \<and> in_flight t \<le> 5)"
proof -
  from assms have inv: "semaphore s + in_flight s = 5"
    using gate_invariant by blast
  have "in_flight t = 4" if "gate_step s t" "in_flight s = 5" for t
    using gate_step_in_flight [OF that(1)] inv that(2) by auto
  moreover have "in_flight s < 5 \<and> in_flight t \<le> 5" if "gate_step s t" "in_flight s < in_flight t" for t
    using gate_step_in_flight [OF that(1)] inv that(2) by auto
  ultimately show ?thesis
    using inv by auto
qed

lemma five_in_flight_reachable: "gate_reachable 6 five_in_flight"
proof -
  let ?g = "\<lambda>k ts. \<lparr>semaphore = k, tasks = ts\<rparr>"
  have 0: "gate_reachable 6 (?g 5 [Created, Created, Created, Created, Created, Created])"
    using gate_reachable.initial [of 6] by (simp add: start_def numeral_eq_Suc)
  have 1: "gate_reachable 6 (?g 4 [InFlight, Created, Created, Created, Created, Created])"
    using gate_reachable.later [OF 0 gate_step.enter [of 0]] by simp
  have 2: "gate_reachable 6 (?g 3 [InFlight, InFlight, Created, Created, Created, Created])"
    using gate_reachable.later [OF 1 gate_step.enter [of 1]] by simp
  have 3: "gate_reachable 6 (?g 2 [InFlight, InFlight, InFlight, Created, Created, Created])"
    using gate_reachable.later [OF 2 gate_step.enter [of 2]] by simp
  have 4: "gate_reachable 6 (?g 1 [InFlight, InFlight, InFlight, InFlight, Created, Created])"
    using gate_reachable.later [OF 3 gate_step.enter [of 3]] by simp
  have 5: "gate_reachable 6 (?g 0 [InFlight, InFlight, InFlight, InFlight, InFlight, Created])"
    using gate_reachable.later [OF 4 gate_step.enter [of 4]] by simp
  then show ?thesis by (simp add: five_in_flight_def)
qed

theorem at_most_five_in_flight_witness:
  "gate_reachable 6 five_in_flight \<and> in_flight five_in_flight = 5
   \<and> \<not> gate_step five_in_flight
         \<lparr>semaphore = 0, tasks = [InFlight, InFlight, InFlight, InFlight, InFlight, InFlight]\<rparr>
   \<and> gate_step five_in_flight
         \<lparr>semaphore = 1, tasks = [Done, InFlight, InFlight, InFlight, InFlight, Created]\<rparr>"
proof -
  let ?six = "\<lparr>semaphore = 0, tasks = [InFlight, InFlight, InFlight, InFlight, InFlight, InFlight]\<rparr>"
  have five: "in_flight five_in_flight = 5"
    by (simp add: in_flight_def five_in_flight_def)
  have six: "in_flight ?six = 6"
    by (simp add: in_flight_def)
  have "\<not> gate_step five_in_flight ?six"
    using at_most_five_in_flight [OF five_in_flight_reachable] five six by auto
  moreover have "gate_step five_in_flight
         \<lparr>semaphore = 1, tasks = [Done, InFlight, InFlight, InFlight, InFlight, Created]\<rparr>"
    using gate_step.leave [of 0 five_in_flight] by (simp add: five_in_flight_def)
  ultimately show ?thesis
    using five five_in_flight_reachable by simp
qed


section \<open>The cleaner\<close>

text \<open>
  The marks \<open>[\<close>, \<open>*\<close> and \<open><\<close> are matched by themselves only, also without regard to
  case.
\<close>

lemma lower_char_bracket [simp]: "lower_char x = CHR ''['' \<longleftrightarrow> x = CHR ''[''"
  by (cases x) (auto simp: lower_char_def is_upper_def)

lemma lower_char_star [simp]: "lower_char x = CHR ''*'' \<longleftrightarrow> x = CHR ''*''"
  by (cases x) (auto simp: lower_char_def is_upper_def)

lemma lower_char_less [simp]: "lower_char x = CHR ''<'' \<longleftrightarrow> x = CHR ''<''"
  by (cases x) (auto simp: lower_char_def is_upper_def)

lemma lower_char_marks [simp]:
  "lower_char CHR ''['' = CHR ''[''" "lower_char CHR ''*'' = CHR ''*''"
  "lower_char CHR ''<'' = CHR ''<''"
  by (simp_all add: lower_char_def is_upper_def)

lemmas pattern_defs =
  ws_def wd_def dg_def sp_def so_def any_lazy_def bold_def http_def
  oneof_def noneof_def words_def beyond_latin1_def plus1_def opt_def

subsection \<open>The order of the rules\<close>

lemma clean_bet: "clean up ''[Bet](http://a)'' = Inr ''Bet''"
  by (simp add: clean_eval rx_eval)

lemma spec_order_bet: "clean_in_spec_order up ''[Bet](http://a)'' = Inr []"
  by (simp add: clean_in_spec_order_def clean_eval rx_eval)

lemma clean_related:
  "clean up ''**RELATED:** [Other story](https://a.org/s)'' = Inr ''**RELATED:** Other story''"
  by (simp add: clean_eval rx_eval)

lemma spec_order_related:
  "clean_in_spec_order up ''**RELATED:** [Other story](https://a.org/s)'' = Inr []"
  by (simp add: clean_in_spec_order_def clean_eval rx_eval)

lemma promotion_related:
  "remove_other_article_promotions ''**RELATED:** [Other story](https://a.org/s)'' = []"
  by (simp add: remove_other_article_promotions_def article_patterns_def linked_def rx_eval)

text \<open>
  C2 does not hold of the code. \<open>clean\<close> calls \<open>_remove_logos\<close> and
  \<open>_remove_general_links\<close> right after \<open>_clean_image_references\<close>, before the rules that
  remove promotions, and the patterns of those rules (\<open>[Bet ...](url)\<close>,
  \<open>**RELATED:** [...](http...)\<close>) match links. So the link of a promotion is reduced to
  its label before the rule that is to remove the promotion runs, and the promotion stays
  in the text: of \<open>**RELATED:** [Other story](https://a.org/s)\<close>, which
  \<open>_remove_other_article_promotions\<close> deletes, \<open>clean\<close> keeps \<open>**RELATED:** Other story\<close>,
  and of \<open>[Bet](http://a)\<close> it keeps \<open>Bet\<close>. The rules composed in the order (a) to (m)
  remove both.
\<close>

theorem clean_strips_links_before_promotions:
  "clean (urlparse offline) ''**RELATED:** [Other story](https://a.org/s)''
     = Inr ''**RELATED:** Other story''
   \<and> clean_in_spec_order (urlparse offline) ''**RELATED:** [Other story](https://a.org/s)'' = Inr []
   \<and> remove_other_article_promotions ''**RELATED:** [Other story](https://a.org/s)'' = []
   \<and> clean (urlparse offline) ''[Bet](http://a)'' = Inr ''Bet''
   \<and> clean_in_spec_order (urlparse offline) ''[Bet](http://a)'' = Inr []"
  by (simp add: clean_bet spec_order_bet clean_related spec_order_related promotion_related)

text \<open>
  \<open>clean\<close> as the composition of the rules in the order in which its body calls them.
\<close>

lemma clean_composition:
  "clean up text =
     (case clean_image_references up (extract_article_date (normalize_line_breaks text)) of
        Inl e \<Rightarrow> Inl e
      | Inr t \<Rightarrow>
          Inr (clean_whitespace (fix_heading_structure (fix_bold_formatting
                 (remove_footer_elements (remove_other_article_promotions
                    (remove_social_media_promotions (remove_betting_promotions
                       (fix_text_formatting (remove_general_links (remove_logos t)))))))))))"
  by (simp add: clean_def Let_def split: sum.splits)

subsection \<open>A rule applied twice\<close>

text \<open>
  A run of the stack takes in at least the characters its frames need.
\<close>

lemma mt_min:
  "mt ic K p s g = Some (p', s', g') \<Longrightarrow> length s' + min_stack K \<le> length s"
proof (induction ic K p s g rule: mt.induct)
  case (6 ic a b K p s g)
  then show ?case by (fastforce split: option.splits)
next
  case (7 ic r K p s g)
  then show ?case by (fastforce split: option.splits)
next
  case (8 ic r K p s g)
  then show ?case by (fastforce split: option.splits)
next
  case (14 ic r K p s g)
  then show ?case by (fastforce split: option.splits)
qed (auto split: if_splits)

text \<open>
  \<open>re.sub\<close> returns the text itself when there is no match, and a shorter text when
  there is one and every match is replaced by a shorter text.
\<close>

lemma re_sub_unmatched: "re_search ic r p t = None \<Longrightarrow> re_sub ic r f p t = t"
  by (induction t arbitrary: p) (auto split: option.splits)

lemma re_sub_shrinks:
  assumes "\<And>p s p' s' g. mt ic [R r] p s Map.empty = Some (p', s', g) \<Longrightarrow>
             length (f g) + length s' < length s"
  shows "length (re_sub ic r f p t) \<le> length t
     \<and> (re_search ic r p t \<noteq> None \<longrightarrow> length (re_sub ic r f p t) < length t)"
proof (induction t arbitrary: p rule: length_induct)
  case (1 t)
  show ?case
  proof (cases t)
    case Nil
    have "mt ic [R r] p [] Map.empty = None"
    proof (cases "mt ic [R r] p [] Map.empty")
      case (Some m)
      then show ?thesis using assms [of p "[]"] by (cases m) auto
    qed simp
    with Nil show ?thesis by simp
  next
    case (Cons c cs)
    show ?thesis
    proof (cases "mt ic [R r] p (c # cs) Map.empty")
      case None
      with Cons "1.IH" [rule_format, of cs "Some c"] show ?thesis
        by auto
    next
      case (Some m)
      obtain p' s' g where m: "m = (p', s', g)" by (cases m) auto
      with Some assms [of p "c # cs" p' s' g]
      have less: "length (f g) + length s' < Suc (length cs)" by simp
      then have "length s' < length t" using Cons by simp
      with "1.IH" have "length (re_sub ic r f p' s') \<le> length s'" by blast
      with less Some m Cons show ?thesis by simp
    qed
  qed
qed

lemma sub_i_shrinks:
  assumes "0 < min_len r"
  shows "length (sub_i r t) \<le> length t"
    and "matches True r t \<Longrightarrow> length (sub_i r t) < length t"
    and "\<not> matches True r t \<Longrightarrow> sub_i r t = t"
proof -
  have "length ((\<lambda>g. []) g) + length s' < length s"
    if "mt True [R r] p s Map.empty = Some (p', s', g)" for p s p' s' g
    using mt_min [OF that] assms by simp
  from re_sub_shrinks [of True r "\<lambda>g. []", OF this]
  show "length (sub_i r t) \<le> length t"
    and "matches True r t \<Longrightarrow> length (sub_i r t) < length t"
    by (auto simp: sub_i_def matches_def)
  show "sub_i r t = t" if "\<not> matches True r t"
  proof -
    from that have "re_search True r None t = None"
      by (cases "re_search True r None t") (auto simp: matches_def)
    then show ?thesis
      by (simp add: sub_i_def re_sub_unmatched)
  qed
qed

lemma deletions_le:
  "list_all (\<lambda>r. 0 < min_len r) ps \<Longrightarrow>
     length (foldl (\<lambda>t pattern. sub_i pattern t) t ps) \<le> length t"
proof (induction ps arbitrary: t)
  case Nil
  show ?case by simp
next
  case (Cons r rs)
  then have "length (foldl (\<lambda>t pattern. sub_i pattern t) (sub_i r t) rs) \<le> length (sub_i r t)"
    by simp
  moreover from Cons.prems have "length (sub_i r t) \<le> length t"
    by (simp add: sub_i_shrinks(1))
  ultimately show ?case by simp
qed

lemma deletions_fixed_iff:
  "list_all (\<lambda>r. 0 < min_len r) ps \<Longrightarrow>
     foldl (\<lambda>t pattern. sub_i pattern t) t ps = t \<longleftrightarrow> (\<forall>r \<in> set ps. \<not> matches True r t)"
proof (induction ps)
  case Nil
  show ?case by simp
next
  case (Cons r rs)
  from Cons.prems have r: "0 < min_len r" and rs: "list_all (\<lambda>r. 0 < min_len r) rs"
    by simp_all
  show ?case
  proof (cases "matches True r t")
    case True
    then have "length (sub_i r t) < length t"
      by (rule sub_i_shrinks(2) [OF r])
    with deletions_le [OF rs, of "sub_i r t"]
    have "length (foldl (\<lambda>t pattern. sub_i pattern t) (sub_i r t) rs) < length t"
      by simp
    with True show ?thesis by auto
  next
    case False
    then have "sub_i r t = t"
      by (rule sub_i_shrinks(3) [OF r])
    with False Cons.IH [OF rs] show ?thesis by simp
  qed
qed

lemma not_matches: "\<not> matches ic r t \<longleftrightarrow> re_search ic r None t = None"
  by (cases "re_search ic r None t") (auto simp: matches_def)

lemma sub_unmatched: "\<not> matches False r t \<Longrightarrow> sub r f t = t"
  by (simp add: sub_def not_matches re_sub_unmatched)

text \<open>
  A group set while the stack runs is a piece of the text between the longest text the
  stack has seen (the current one, or one a \<open>Close\<close> frame remembers) and the rest that is
  left at the end.
\<close>

lemma mt_group_bound:
  "mt ic K p s g = Some (p', s', g') \<Longrightarrow> length s \<le> B \<Longrightarrow>
     (\<forall>f \<in> set K. case f of Close i s0 \<Rightarrow> length s0 \<le> B | _ \<Rightarrow> True) \<Longrightarrow>
     g' i = Some t \<Longrightarrow> g i = Some t \<or> length t + length s' \<le> B"
proof (induction ic K p s g rule: mt.induct)
  case (6 ic a b K p s g)
  then show ?case by (fastforce split: option.splits)
next
  case (7 ic r K p s g)
  then show ?case by (fastforce split: option.splits)
next
  case (8 ic r K p s g)
  then show ?case by (fastforce split: option.splits)
next
  case (11 ic j s0 K p s g)
  from "11.prems"(1) have run: "mt ic K p s (g(j \<mapsto> take (length s0 - length s) s0)) = Some (p', s', g')"
    by simp
  from mt_min [OF run] have le: "length s' \<le> length s" by simp
  from "11.prems"(3) have s0: "length s0 \<le> B" and K: "\<forall>f \<in> set K. case f of Close i s0 \<Rightarrow> length s0 \<le> B | _ \<Rightarrow> True"
    by simp_all
  from "11.IH" [OF run "11.prems"(2) K "11.prems"(4)]
  have "(g(j \<mapsto> take (length s0 - length s) s0)) i = Some t \<or> length t + length s' \<le> B" .
  then show ?case
  proof
    assume a: "(g(j \<mapsto> take (length s0 - length s) s0)) i = Some t"
    show ?thesis
    proof (cases "i = j")
      case True
      with a have "t = take (length s0 - length s) s0" by simp
      then have "length t \<le> length s0 - length s" by simp
      with le s0 "11.prems"(2) show ?thesis by linarith
    next
      case False
      with a show ?thesis by simp
    qed
  qed simp
next
  case (14 ic r K p s g)
  then show ?case by (fastforce split: option.splits)
qed (auto split: if_splits)

text \<open>
  General link stripping puts the label in the place of the link, which is shorter: it
  returns a text unchanged exactly when the text has no link.
\<close>

lemma link_label_shorter:
  assumes "mt False [R link_pattern] p s Map.empty = Some (p', s', g)"
  shows "length (grp g 1) + length s' < length s"
proof (cases s)
  case Nil
  with assms show ?thesis
    by (simp add: link_pattern_def noneof_def plus1_def)
next
  case (Cons c cs)
  let ?rest = "[R (seqs [Grp 1 (plus1 (noneof '']'')), lit '']('', Grp 2 (plus1 (noneof '')'')), lit '')''])]"
  from assms Cons have run: "mt False ?rest (Some c) cs Map.empty = Some (p', s', g)"
    by (simp add: link_pattern_def split: if_splits)
  have "length (grp g 1) + length s' \<le> length cs"
  proof (cases "g 1")
    case None
    with mt_min [OF run] show ?thesis by (simp add: grp_def)
  next
    case (Some t)
    from mt_group_bound [OF run, of "length cs" 1 t] Some
    show ?thesis by (simp add: grp_def)
  qed
  with Cons show ?thesis by simp
qed

lemma remove_general_links_fixed_iff:
  "remove_general_links t = t \<longleftrightarrow> \<not> matches False link_pattern t"
proof
  assume fixed: "remove_general_links t = t"
  show "\<not> matches False link_pattern t"
  proof
    assume "matches False link_pattern t"
    then have "re_search False link_pattern None t \<noteq> None"
      by (simp add: matches_def)
    with re_sub_shrinks [of False link_pattern "\<lambda>g. grp g 1" None t, OF link_label_shorter]
    have "length (remove_general_links t) < length t"
      by (simp add: remove_general_links_def sub_def)
    with fixed show False by simp
  qed
next
  assume "\<not> matches False link_pattern t"
  then show "remove_general_links t = t"
    by (simp add: remove_general_links_def sub_unmatched)
qed

text \<open>
  The same bound for a group that the pattern closes some characters before the end of
  the match.
\<close>

lemma grp_tail_mono: "grp_tail E r a \<Longrightarrow> a \<le> b \<Longrightarrow> grp_tail E r b"
  by (induction E r a arbitrary: b rule: grp_tail.induct) auto

lemma mt_group_tail:
  "mt ic K p s g = Some (p', s', g') \<Longrightarrow> stack_tail E K \<Longrightarrow> length s \<le> B \<Longrightarrow>
     (\<forall>f \<in> set K. case f of Close i s0 \<Rightarrow> length s0 \<le> B | _ \<Rightarrow> True) \<Longrightarrow>
     g' i = Some t \<Longrightarrow> g i = Some t \<or> length t + length s' + E \<le> B"
proof (induction ic K p s g rule: mt.induct)
  case (5 ic a b K p s g)
  then show ?case by (auto simp: add.assoc)
next
  case (6 ic a b K p s g)
  from "6.prems"(2) have a: "stack_tail E (R a # K)" and b: "stack_tail E (R b # K)"
    by auto
  show ?case
  proof (cases "mt ic (R a # K) p s g")
    case None
    with "6.prems" "6.IH"(2) [OF None _ b] show ?thesis by auto
  next
    case (Some m)
    with "6.prems" "6.IH"(1) [OF _ a] show ?thesis by auto
  qed
next
  case (7 ic r K p s g)
  from "7.prems"(2) have a: "stack_tail E (R r # Shorter (length s) # R (Star r) # K)"
    and b: "stack_tail E K"
    by auto
  show ?case
  proof (cases "mt ic (R r # Shorter (length s) # R (Star r) # K) p s g")
    case None
    with "7.prems" "7.IH"(2) [OF None _ b] show ?thesis by auto
  next
    case (Some m)
    with "7.prems" "7.IH"(1) [OF _ a] show ?thesis by auto
  qed
next
  case (8 ic r K p s g)
  from "8.prems"(2) have a: "stack_tail E (R r # Shorter (length s) # R (Lazy r) # K)"
    and b: "stack_tail E K"
    by auto
  show ?case
  proof (cases "mt ic K p s g")
    case None
    with "8.prems" "8.IH"(2) [OF None _ a] show ?thesis by auto
  next
    case (Some m)
    with "8.prems" "8.IH"(1) [OF _ b] show ?thesis by auto
  qed
next
  case (11 ic j s0 K p s g)
  from "11.prems"(1) have run: "mt ic K p s (g(j \<mapsto> take (length s0 - length s) s0)) = Some (p', s', g')"
    by simp
  from mt_min [OF run] have le: "length s' + min_stack K \<le> length s" .
  from "11.prems"(2) have E: "E \<le> min_stack K" and tail: "stack_tail E K"
    by simp_all
  from "11.prems"(4) have s0: "length s0 \<le> B" and K: "\<forall>f \<in> set K. case f of Close i s0 \<Rightarrow> length s0 \<le> B | _ \<Rightarrow> True"
    by simp_all
  from "11.IH" [OF run tail "11.prems"(3) K "11.prems"(5)]
  have "(g(j \<mapsto> take (length s0 - length s) s0)) i = Some t \<or> length t + length s' + E \<le> B" .
  then show ?case
  proof
    assume a: "(g(j \<mapsto> take (length s0 - length s) s0)) i = Some t"
    show ?thesis
    proof (cases "i = j")
      case True
      with a have "t = take (length s0 - length s) s0" by simp
      then have "length t \<le> length s0 - length s" by simp
      with le E s0 "11.prems"(3) show ?thesis by linarith
    next
      case False
      with a show ?thesis by simp
    qed
  qed simp
next
  case (14 ic r K p s g)
  then show ?case by (auto split: option.splits)
qed (auto split: if_splits)


lemma atom_step:
  "mt ic (R (Atom a) # K) p s g = Some m \<Longrightarrow>
     \<exists>x xs. s = x # xs \<and> mt ic K (Some x) xs g = Some m"
  by (cases s) (auto split: if_splits)

lemma grp_bound:
  assumes run: "mt ic K p s Map.empty = Some (p', s', g)"
    and tail: "stack_tail E K" and K: "\<forall>f \<in> set K. case f of Close i s0 \<Rightarrow> False | _ \<Rightarrow> True"
    and E: "E \<le> min_stack K"
  shows "length (grp g i) + length s' + E \<le> length s"
proof (cases "g i")
  case None
  with mt_min [OF run] E show ?thesis by (simp add: grp_def)
next
  case (Some t)
  have "\<forall>f \<in> set K. case f of Close i s0 \<Rightarrow> length s0 \<le> length s | _ \<Rightarrow> True"
    using K by (auto split: frame.splits)
  from mt_group_tail [OF run tail _ this Some] Some show ?thesis
    by (simp add: grp_def)
qed

lemma sub_shrinking:
  assumes "shrinking r f"
  shows "length (sub r f t) \<le> length t"
    and "matches False r t \<Longrightarrow> length (sub r f t) < length t"
proof -
  from assms have "length (f g) + length s' < length s"
    if "mt False [R r] p s Map.empty = Some (p', s', g)" for p s p' s' g
    using that by (auto simp: shrinking_def)
  from re_sub_shrinks [of False r f, OF this]
  show "length (sub r f t) \<le> length t"
    and "matches False r t \<Longrightarrow> length (sub r f t) < length t"
    by (auto simp: sub_def matches_def)
qed

lemma fixes_le:
  "list_all (\<lambda>(r, f). shrinking r f) fs \<Longrightarrow>
     length (foldl (\<lambda>t (r, f). sub r f t) t fs) \<le> length t"
proof (induction fs arbitrary: t)
  case Nil
  show ?case by simp
next
  case (Cons x fs)
  obtain r f where x: "x = (r, f)" by (cases x)
  with Cons have "length (foldl (\<lambda>t (r, f). sub r f t) (sub r f t) fs) \<le> length (sub r f t)"
    by simp
  moreover from Cons.prems x have "length (sub r f t) \<le> length t"
    by (simp add: sub_shrinking(1))
  ultimately show ?case using x by simp
qed

lemma fixes_fixed_iff:
  "list_all (\<lambda>(r, f). shrinking r f) fs \<Longrightarrow>
     foldl (\<lambda>t (r, f). sub r f t) t fs = t \<longleftrightarrow> (\<forall>r \<in> set (map fst fs). \<not> matches False r t)"
proof (induction fs)
  case Nil
  show ?case by simp
next
  case (Cons x fs)
  obtain r f where x: "x = (r, f)" by (cases x)
  from Cons.prems x have r: "shrinking r f" and fs: "list_all (\<lambda>(r, f). shrinking r f) fs"
    by simp_all
  show ?case
  proof (cases "matches False r t")
    case True
    then have "length (sub r f t) < length t"
      by (rule sub_shrinking(2) [OF r])
    with fixes_le [OF fs, of "sub r f t"]
    have "length (foldl (\<lambda>t (r, f). sub r f t) (sub r f t) fs) < length t"
      by simp
    with True x show ?thesis by auto
  next
    case False
    then have "sub r f t = t"
      by (rule sub_unmatched)
    with False x Cons.IH [OF fs] show ?thesis by simp
  qed
qed

text \<open>
  Each of the seven substitutions of \<open>_fix_bold_formatting\<close> is shrinking, so the rule
  returns a text unchanged exactly when none of its patterns matches.
\<close>

lemma fix_bold_formatting_fixes:
  "fix_bold_formatting t = foldl (\<lambda>t (r, f). sub r f t) t bold_fixes"
  by (simp add: fix_bold_formatting_def bold_fixes_def)

lemma shrinking_const:
  "length new < min_len r \<Longrightarrow> shrinking r (\<lambda>g. new)"
  unfolding shrinking_def using mt_min by fastforce

lemma bold_fixes_shrinking: "list_all (\<lambda>(r, f). shrinking r f) bold_fixes"
proof -
  have 1: "shrinking (seqs [bold, sp, bold]) (\<lambda>g. '' '')"
    by (rule shrinking_const) (simp add: pattern_defs)
  have 2: "shrinking (seqs [lit ''**)'', sp, bold]) (\<lambda>g. ''**) '')"
    by (rule shrinking_const) (simp add: pattern_defs)
  have 3: "shrinking (seqs [bold, so, lit '','', so, bold]) (\<lambda>g. '', '')"
    by (rule shrinking_const) (simp add: pattern_defs)
  have 7: "shrinking (lit ''****'') (\<lambda>g. ''**'')"
    by (rule shrinking_const) simp
  have 4: "shrinking (seqs [bold, sp, Grp 1 (plus1 wd), bold]) (\<lambda>g. ''**'' @ grp g 1 @ ''**'')"
    unfolding shrinking_def
  proof (intro allI impI)
    fix p s p' s' g
    assume "mt False [R (seqs [bold, sp, Grp 1 (plus1 wd), bold])] p s Map.empty = Some (p', s', g)"
    then have "mt False [R (Atom (Chr CHR ''*'')), R (Atom (Chr CHR ''*'')),
        R (seqs [sp, Grp 1 (plus1 wd), bold])] p s Map.empty = Some (p', s', g)"
      by (simp add: bold_def)
    then obtain x1 x2 s2 where s2: "s = x1 # x2 # s2"
      and "mt False [R (seqs [sp, Grp 1 (plus1 wd), bold])] (Some x2) s2 Map.empty = Some (p', s', g)"
      by (blast dest!: atom_step)
    then have "mt False [R (Atom (Cls [Space])), R (Star ws), R (Seq (Grp 1 (plus1 wd)) bold)]
        (Some x2) s2 Map.empty = Some (p', s', g)"
      by (simp add: sp_def plus1_def ws_def)
    then obtain x3 rest where s3: "s2 = x3 # rest"
      and run: "mt False [R (Star ws), R (Seq (Grp 1 (plus1 wd)) bold)] (Some x3) rest Map.empty
                  = Some (p', s', g)"
      by (blast dest!: atom_step)
    from s2 s3 have s: "s = x1 # x2 # x3 # rest" by simp
    have "length (grp g 1) + length s' + 2 \<le> length rest"
      by (rule grp_bound [OF run]) (simp_all add: pattern_defs)
    with s show "length (''**'' @ grp g 1 @ ''**'') + length s' < length s"
      by simp
  qed
  have 5: "shrinking (seqs [Grp 1 (plus1 wd), sp, bold]) (\<lambda>g. grp g 1 @ ''**'')"
    unfolding shrinking_def
  proof (intro allI impI)
    fix p s p' s' g
    assume run: "mt False [R (seqs [Grp 1 (plus1 wd), sp, bold])] p s Map.empty = Some (p', s', g)"
    have "length (grp g 1) + length s' + 3 \<le> length s"
      by (rule grp_bound [OF run]) (simp_all add: pattern_defs)
    then show "length (grp g 1 @ ''**'') + length s' < length s"
      by simp
  qed
  have 6: "shrinking (seqs [bold, so, Grp 1 (oneof '',.;:!?'')]) (\<lambda>g. grp g 1)"
    unfolding shrinking_def
  proof (intro allI impI)
    fix p s p' s' g
    assume "mt False [R (seqs [bold, so, Grp 1 (oneof '',.;:!?'')])] p s Map.empty = Some (p', s', g)"
    then have "mt False [R (Atom (Chr CHR ''*'')), R (Atom (Chr CHR ''*'')),
        R (Seq so (Grp 1 (oneof '',.;:!?'')))] p s Map.empty = Some (p', s', g)"
      by (simp add: bold_def)
    then obtain x1 x2 rest where s: "s = x1 # x2 # rest"
      and run: "mt False [R (Seq so (Grp 1 (oneof '',.;:!?'')))] (Some x2) rest Map.empty
                  = Some (p', s', g)"
      by (blast dest!: atom_step)
    have "length (grp g 1) + length s' + 0 \<le> length rest"
      by (rule grp_bound [OF run]) (simp_all add: pattern_defs)
    with s show "length (grp g 1) + length s' < length s"
      by simp
  qed
  from 1 2 3 4 5 6 7 show ?thesis
    by (simp add: bold_fixes_def)
qed

lemma fix_bold_formatting_fixed_iff:
  "fix_bold_formatting t = t \<longleftrightarrow> (\<forall>r \<in> set (map fst bold_fixes). \<not> matches False r t)"
  unfolding fix_bold_formatting_fixes by (rule fixes_fixed_iff [OF bold_fixes_shrinking])

text \<open>
  \<open>strip\<close> of a stripped text is the text; what \<open>_clean_whitespace\<close> returns is stripped.
\<close>

lemma last_dropWhile: "dropWhile P ys \<noteq> [] \<Longrightarrow> last (dropWhile P ys) = last ys"
  by (induction ys) auto

lemma dropWhile_head: "ys \<noteq> [] \<Longrightarrow> \<not> P (hd ys) \<Longrightarrow> dropWhile P ys = ys"
  by (cases ys) auto

lemma dropWhile_rev_twice:
  "dropWhile P (rev (dropWhile P (rev (dropWhile P xs)))) = rev (dropWhile P (rev (dropWhile P xs)))"
proof (cases "dropWhile P (rev (dropWhile P xs)) = []")
  case True
  then show ?thesis by (simp only: rev.simps dropWhile.simps)
next
  case False
  define d where "d = dropWhile P xs"
  define e where "e = dropWhile P (rev d)"
  from False have e: "e \<noteq> []" by (simp only: e_def d_def not_False_eq_True)
  have d: "d \<noteq> []"
  proof
    assume "d = []"
    then have "e = []" by (simp only: e_def rev.simps dropWhile.simps)
    with e show False by (rule notE)
  qed
  then have "\<not> P (hd d)" unfolding d_def by (rule hd_dropWhile)
  moreover have "hd (rev e) = last e" using e by (simp only: hd_rev)
  moreover have "last e = last (rev d)" using e unfolding e_def by (rule last_dropWhile)
  moreover have "last (rev d) = hd d" using d by (simp only: last_rev)
  ultimately have "\<not> P (hd (rev e))" by simp
  moreover have "rev e \<noteq> []" using e by (simp only: rev_is_Nil_conv not_False_eq_True)
  ultimately have "dropWhile P (rev e) = rev e" by (simp add: dropWhile_head)
  then show ?thesis by (simp only: e_def d_def)
qed

lemma strip_strip: "strip (strip s) = strip s"
proof -
  have "strip (strip s) = rev (dropWhile is_space (rev
      (dropWhile is_space (rev (dropWhile is_space (rev (dropWhile is_space s)))))))"
    by (simp only: strip_def rev_rev_ident)
  also have "\<dots> = rev (dropWhile is_space (rev (rev (dropWhile is_space (rev (dropWhile is_space s))))))"
    by (simp only: dropWhile_rev_twice)
  also have "\<dots> = rev (dropWhile is_space (dropWhile is_space (rev (dropWhile is_space s))))"
    by (simp only: rev_rev_ident)
  also have "\<dots> = rev (dropWhile is_space (rev (dropWhile is_space s)))"
    by (simp only: dropWhile_idem)
  finally show ?thesis by (simp only: strip_def)
qed

lemma clean_whitespace_fixes:
  "clean_whitespace t = strip (foldl (\<lambda>t (r, f). sub r f t) t whitespace_fixes)"
  by (simp add: clean_whitespace_def whitespace_fixes_def)

lemma clean_whitespace_stripped: "strip (clean_whitespace s) = clean_whitespace s"
  by (simp add: clean_whitespace_fixes strip_strip)

lemma fixes_unmatched:
  "\<forall>r \<in> set (map fst fs). \<not> matches False r t \<Longrightarrow> foldl (\<lambda>t (r, f). sub r f t) t fs = t"
  by (induction fs) (auto simp: sub_unmatched)

lemma clean_whitespace_nothing_left:
  "\<forall>r \<in> set (map fst whitespace_fixes). \<not> matches False r t \<Longrightarrow> strip t = t
     \<Longrightarrow> clean_whitespace t = t"
  by (simp add: clean_whitespace_fixes fixes_unmatched)

lemma fix_heading_structure_nothing_left:
  assumes "\<not> matches False team_match_pattern t" and "\<not> matches False stadium_pattern t"
    and "\<not> matches True match_info_pattern t"
  shows "fix_heading_structure t = t"
proof -
  from assms(3) have "re_search True match_info_pattern None t = None"
    by (simp add: not_matches)
  with assms(1,2) show ?thesis
    by (simp add: fix_heading_structure_def Let_def sub_unmatched)
qed

lemma deletion_patterns:
  "list_all (\<lambda>r. 0 < min_len r) article_patterns"
  "list_all (\<lambda>r. 0 < min_len r) footer_patterns"
  "list_all (\<lambda>r. 0 < min_len r) logo_patterns"
  by (simp_all add: article_patterns_def linked_def footer_patterns_def copyright_sign_def
      logo_patterns_def logo_terms_def small_size_def in_tag_def pattern_defs)

text \<open>
  Each of the rules (g) to (k) applied twice, on a text where the first pass makes a new
  match out of what is left around the one it replaces.
\<close>

lemma g_twice:
  "remove_other_article_promotions ''[ALSO [ALSO READ:](http://)READ:](http://)'' = ''[ALSO READ:](http://)''"
  "remove_other_article_promotions ''[ALSO READ:](http://)'' = []"
  by (simp_all add: remove_other_article_promotions_def article_patterns_def linked_def rx_eval)

lemma h_twice:
  "remove_footer_elements ''Don't forget to Don't forget to check us oncheck us on'' = ''Don't forget to check us on''"
  "remove_footer_elements ''Don't forget to check us on'' = []"
  by (simp_all add: remove_footer_elements_def footer_patterns_def copyright_sign_def rx_eval)

lemma i_twice:
  "remove_logos ''!![](a)[](b)'' = ''![](b)''"
  "remove_logos ''![](b)'' = []"
  by (simp_all add: remove_logos_def logo_patterns_def logo_terms_def small_size_def in_tag_def rx_eval)

lemma j_twice:
  "remove_general_links ''[[a](b)](c)'' = ''[a](c)''"
  "remove_general_links ''[a](c)'' = ''a''"
  by (simp_all add: remove_general_links_def link_pattern_def rx_eval)

lemma k_twice:
  "fix_bold_formatting ''******'' = ''****''"
  "fix_bold_formatting ''****'' = ''**''"
  by (simp_all add: fix_bold_formatting_def rx_eval)

text \<open>
  C6, as stated, fails: read-more removal, footer removal, logo removal, link stripping
  and bold-marker fixing each make one pass over the text, and the text they return can
  hold a match again.
\<close>

theorem single_pass_leaves_a_match:
  "remove_other_article_promotions
       (remove_other_article_promotions ''[ALSO [ALSO READ:](http://)READ:](http://)'')
     \<noteq> remove_other_article_promotions ''[ALSO [ALSO READ:](http://)READ:](http://)''
   \<and> remove_footer_elements
       (remove_footer_elements ''Don't forget to Don't forget to check us oncheck us on'')
     \<noteq> remove_footer_elements ''Don't forget to Don't forget to check us oncheck us on''
   \<and> remove_logos (remove_logos ''!![](a)[](b)'') \<noteq> remove_logos ''!![](a)[](b)''
   \<and> remove_general_links (remove_general_links ''[[a](b)](c)'')
     \<noteq> remove_general_links ''[[a](b)](c)''
   \<and> fix_bold_formatting (fix_bold_formatting ''******'') \<noteq> fix_bold_formatting ''******''"
  by (simp add: g_twice h_twice i_twice j_twice k_twice)

text \<open>
  Heading promotion puts a second \<open>##\<close> before a heading it has made, and whitespace
  cleanup leaves three newlines in a row where a line of spaces stood between them, which
  its first substitution (\<open>Remove multiple blank lines\<close>) is there to remove.
\<close>

lemma l_twice:
  "fix_heading_structure ''A (B) vs C (D)'' = ''## A (B) vs C (D)''"
  "fix_heading_structure ''## A (B) vs C (D)'' = ''## ## A (B) vs C (D)''"
  by (simp_all add: fix_heading_structure_def team_match_pattern_def team_def stadium_pattern_def
      match_info_pattern_def rx_eval)

lemma m_twice:
  "clean_whitespace ''a\<newline> \<newline>\<newline>b'' = ''a\<newline>\<newline>\<newline>b''"
  "clean_whitespace ''a\<newline>\<newline>\<newline>b'' = ''a\<newline>\<newline>b''"
  by (simp_all add: clean_whitespace_def heading_line_def strip_def rx_eval)

text \<open>
  Each rule on a text it rewrites and where the result has no match left.
\<close>

lemma g_once:
  "remove_other_article_promotions ''See [ALSO READ: x](http://a) now'' = ''See  now''"
  "list_all (\<lambda>r. \<not> matches True r ''See  now'') article_patterns"
  by (simp_all add: remove_other_article_promotions_def article_patterns_def linked_def
      matches_def rx_eval)

lemma h_once:
  "remove_footer_elements ''Bye. Don't forget to follow us on X'' = ''Bye.  X''"
  "list_all (\<lambda>r. \<not> matches True r ''Bye.  X'') footer_patterns"
  by (simp_all add: remove_footer_elements_def footer_patterns_def copyright_sign_def
      matches_def rx_eval)

lemma i_once:
  "remove_logos ''a ![logo](u) b'' = ''a  b''"
  "list_all (\<lambda>r. \<not> matches True r ''a  b'') logo_patterns"
  by (simp_all add: remove_logos_def logo_patterns_def logo_terms_def small_size_def in_tag_def
      matches_def rx_eval)

lemma j_once:
  "remove_general_links ''x [a](b) y'' = ''x a y''"
  "\<not> matches False link_pattern ''x a y''"
  by (simp_all add: remove_general_links_def link_pattern_def matches_def rx_eval)

lemma k_once:
  "fix_bold_formatting ''** a** , b'' = ''**a, b''"
  "list_all (\<lambda>r. \<not> matches False r ''**a, b'') (map fst bold_fixes)"
  by (simp_all add: fix_bold_formatting_def bold_fixes_def matches_def rx_eval)

lemma l_once:
  "fix_heading_structure ''at the **Eden Stadium** in **Pune**'' = ''### Venue: Eden Stadium in Pune''"
  "\<not> matches False team_match_pattern ''### Venue: Eden Stadium in Pune''"
  "\<not> matches False stadium_pattern ''### Venue: Eden Stadium in Pune''"
  "\<not> matches True match_info_pattern ''### Venue: Eden Stadium in Pune''"
  by (simp_all add: fix_heading_structure_def team_match_pattern_def team_def stadium_pattern_def
      match_info_pattern_def matches_def rx_eval)

lemma m_once:
  "clean_whitespace ''a  b \<newline>\<newline>\<newline>\<newline>c  '' = ''a b\<newline>\<newline>c''"
  "list_all (\<lambda>r. \<not> matches False r ''a b\<newline>\<newline>c'') (map fst whitespace_fixes)"
  by (simp_all add: clean_whitespace_def whitespace_fixes_def heading_line_def strip_def
      matches_def rx_eval)

text \<open>
  C6, amended: each of read-more removal (g), footer removal (h), logo removal (i),
  general link stripping (j) and bold-marker fixing (k) is idempotent at a text \<open>s\<close>
  exactly when no pattern of the rule matches what the rule returns for \<open>s\<close>. Heading
  promotion (l) and whitespace cleanup (m) are idempotent at \<open>s\<close> whenever no pattern of
  the rule matches what the rule returns for \<open>s\<close>.
\<close>

theorem rules_idempotent_unless_match_left:
  "(remove_other_article_promotions (remove_other_article_promotions s)
        = remove_other_article_promotions s
      \<longleftrightarrow> (\<forall>r \<in> set article_patterns. \<not> matches True r (remove_other_article_promotions s)))
   \<and> (remove_footer_elements (remove_footer_elements s) = remove_footer_elements s
      \<longleftrightarrow> (\<forall>r \<in> set footer_patterns. \<not> matches True r (remove_footer_elements s)))
   \<and> (remove_logos (remove_logos s) = remove_logos s
      \<longleftrightarrow> (\<forall>r \<in> set logo_patterns. \<not> matches True r (remove_logos s)))
   \<and> (remove_general_links (remove_general_links s) = remove_general_links s
      \<longleftrightarrow> \<not> matches False link_pattern (remove_general_links s))
   \<and> (fix_bold_formatting (fix_bold_formatting s) = fix_bold_formatting s
      \<longleftrightarrow> (\<forall>r \<in> set (map fst bold_fixes). \<not> matches False r (fix_bold_formatting s)))
   \<and> (\<not> matches False team_match_pattern (fix_heading_structure s)
        \<and> \<not> matches False stadium_pattern (fix_heading_structure s)
        \<and> \<not> matches True match_info_pattern (fix_heading_structure s)
      \<longrightarrow> fix_heading_structure (fix_heading_structure s) = fix_heading_structure s)
   \<and> ((\<forall>r \<in> set (map fst whitespace_fixes). \<not> matches False r (clean_whitespace s))
      \<longrightarrow> clean_whitespace (clean_whitespace s) = clean_whitespace s)"
  by (simp add: remove_other_article_promotions_def remove_footer_elements_def remove_logos_def
      deletions_fixed_iff deletion_patterns remove_general_links_fixed_iff
      fix_bold_formatting_fixed_iff fix_heading_structure_nothing_left
      clean_whitespace_nothing_left clean_whitespace_stripped)

theorem rules_idempotent_unless_match_left_witness:
  "remove_other_article_promotions ''See [ALSO READ: x](http://a) now'' = ''See  now''
   \<and> remove_other_article_promotions ''See  now'' = ''See  now''
   \<and> remove_footer_elements ''Bye. Don't forget to follow us on X'' = ''Bye.  X''
   \<and> remove_footer_elements ''Bye.  X'' = ''Bye.  X''
   \<and> remove_logos ''a ![logo](u) b'' = ''a  b''
   \<and> remove_logos ''a  b'' = ''a  b''
   \<and> remove_general_links ''x [a](b) y'' = ''x a y''
   \<and> remove_general_links ''x a y'' = ''x a y''
   \<and> fix_bold_formatting ''** a** , b'' = ''**a, b''
   \<and> fix_bold_formatting ''**a, b'' = ''**a, b''
   \<and> fix_heading_structure ''at the **Eden Stadium** in **Pune**'' = ''### Venue: Eden Stadium in Pune''
   \<and> fix_heading_structure ''### Venue: Eden Stadium in Pune'' = ''### Venue: Eden Stadium in Pune''
   \<and> clean_whitespace ''a  b \<newline>\<newline>\<newline>\<newline>c  '' = ''a b\<newline>\<newline>c''
   \<and> clean_whitespace ''a b\<newline>\<newline>c'' = ''a b\<newline>\<newline>c''
   \<and> matches False link_pattern (remove_general_links ''[[a](b)](c)'')
   \<and> remove_general_links (remove_general_links ''[[a](b)](c)'')
        \<noteq> remove_general_links ''[[a](b)](c)''"
proof -
  note rule = rules_idempotent_unless_match_left
  have g: "remove_other_article_promotions ''See  now'' = ''See  now''"
    using rule [of "''See [ALSO READ: x](http://a) now''"] g_once
    by (simp add: list_all_iff)
  have h: "remove_footer_elements ''Bye.  X'' = ''Bye.  X''"
    using rule [of "''Bye. Don't forget to follow us on X''"] h_once
    by (simp add: list_all_iff)
  have i: "remove_logos ''a  b'' = ''a  b''"
    using rule [of "''a ![logo](u) b''"] i_once
    by (simp add: list_all_iff)
  have j: "remove_general_links ''x a y'' = ''x a y''"
    using rule [of "''x [a](b) y''"] j_once
    by simp
  have k: "fix_bold_formatting ''**a, b'' = ''**a, b''"
    using rule [of "''** a** , b''"] k_once
    by (simp add: list_all_iff)
  have l: "fix_heading_structure ''### Venue: Eden Stadium in Pune'' = ''### Venue: Eden Stadium in Pune''"
    using rule [of "''at the **Eden Stadium** in **Pune**''"] l_once
    by simp
  have m: "clean_whitespace ''a b\<newline>\<newline>c'' = ''a b\<newline>\<newline>c''"
    using rule [of "''a  b \<newline>\<newline>\<newline>\<newline>c  ''"] m_once
    by (simp add: list_all_iff)
  have left: "matches False link_pattern (remove_general_links ''[[a](b)](c)'')"
    using rule [of "''[[a](b)](c)''"] j_twice
    by simp
  show ?thesis
    using g h i j k l m left g_once h_once i_once j_once k_once l_once m_once j_twice
    by simp
qed


end
